theory Spec2Isabelle
  imports Main "HOL-Library.Word"
begin

section \<open>Data model of the tunnel (ssh_tunnel.go)\<close>

text \<open>
  \<open>time.Duration\<close> is a signed 64-bit count of nanoseconds; \<open>time.Second\<close> is
  the constant 1000000000. Instants (\<open>time.Time\<close>) are abstract nanosecond
  counts, unbounded.
\<close>

type_synonym Duration = "64 word"

definition Second :: Duration where
  "Second = 1000000000"

text \<open>
  Errors are values. \<open>EOF\<close> is \<open>io.EOF\<close>, \<open>ErrDeadlineExceeded\<close> stands for
  every error that \<open>errors.Is\<close> matches with \<open>os.ErrDeadlineExceeded\<close>,
  \<open>ErrNew m\<close> is \<open>errors.New(m)\<close>, and \<open>ErrOther n\<close> is any other error that
  a collaborator (the SSH library, the socket layer) returns.
\<close>

datatype error = EOF | ErrDeadlineExceeded | ErrNew string | ErrOther nat

text \<open>
  The collaborators' objects are opaque handles: an SSH client (\<open>*ssh.Client\<close>),
  a listener (\<open>net.Listener\<close>), a connection (\<open>net.Conn\<close>), a client
  configuration. A nil pointer or nil interface is \<open>None\<close>.
\<close>

type_synonym client = nat
type_synonym listener_handle = nat
type_synonym conn = nat
type_synonym ClientConfig = nat

datatype logger_fn = LogPrintf | NoOpLogger | UserLogger nat

datatype orientation = Forward | Reverse

text \<open>
  Every call that leaves the tunnel object is recorded, in program order, in a
  trace: calls of the logger (by their format string), calls to the SSH library,
  to the socket layer and to the clock, goroutine starts and waits on a
  \<open>sync.WaitGroup\<close>, and the lock and unlock of the tunnel's mutex.
\<close>

datatype event =
    Log string
  | MxLock
  | MxUnlock
  | SshConnectCall string
  | ClientClose client
  | ClientDial client string string
  | ClientListen client string string
  | NilDereference
  | NilReceiverCall
  | NetDial string string
  | NetListen string string
  | ListenerAccept listener_handle
  | ListenerClose listener_handle
  | ConnClose conn
  | ConnSetDeadline conn int "error option"
  | Sleep Duration
  | GoSupervisor orientation
  | GoProxy conn
  | GoCopy conn conn
  | WaitCopies
  | CopyDone conn conn

text \<open>
  The struct \<open>SSHTunnel\<close>. The wait group \<open>wg\<close> is its counter, the mutex
  \<open>mx\<close> shows in the trace as \<open>MxLock\<close> and \<open>MxUnlock\<close> (the functions of
  this section run one goroutine at a time, so a lock finds the mutex free; the
  interleaving of several goroutines on the mutex is modelled further down),
  and \<open>trace\<close> is the record of the calls made so far.
\<close>

record SSHTunnel =
  sshConfig :: ClientConfig
  host :: string
  sshClient :: "client option"
  netNetwork :: string
  netAddress :: string
  sshNetwork :: string
  sshAddress :: string
  listener :: "listener_handle option"
  closed :: bool
  attemptSleepTime :: Duration
  ioTimeout :: Duration
  logger :: logger_fn
  wg :: nat
  trace :: "event list"

definition NewSSHTunnel :: "ClientConfig \<Rightarrow> string \<Rightarrow> string \<Rightarrow> string \<Rightarrow> SSHTunnel" where
  "NewSSHTunnel cfg h localPort remotePort =
     \<lparr> sshConfig = cfg,
       host = h,
       sshClient = None,
       netNetwork = ''tcp'',
       netAddress = ''localhost:'' @ localPort,
       sshNetwork = ''tcp'',
       sshAddress = ''localhost:'' @ remotePort,
       listener = None,
       closed = False,
       attemptSleepTime = 3 * Second,
       ioTimeout = 30 * Second,
       logger = LogPrintf,
       wg = 0,
       trace = [] \<rparr>"

definition SetAttemptSleepTime :: "Duration \<Rightarrow> SSHTunnel \<Rightarrow> SSHTunnel" where
  "SetAttemptSleepTime sleepTime c = c\<lparr>attemptSleepTime := sleepTime\<rparr>"

definition SetLogger :: "logger_fn \<Rightarrow> SSHTunnel \<Rightarrow> SSHTunnel" where
  "SetLogger l c = c\<lparr>logger := l\<rparr>"

definition SetNoLogger :: "SSHTunnel \<Rightarrow> SSHTunnel" where
  "SetNoLogger c = SetLogger NoOpLogger c"

text \<open>The three setters are the only exported functions that change a configuration field.\<close>

datatype setter = CallSetAttemptSleepTime Duration | CallSetLogger logger_fn | CallSetNoLogger

fun apply_setter :: "setter \<Rightarrow> SSHTunnel \<Rightarrow> SSHTunnel" where
  "apply_setter (CallSetAttemptSleepTime d) c = SetAttemptSleepTime d c"
| "apply_setter (CallSetLogger l) c = SetLogger l c"
| "apply_setter CallSetNoLogger c = SetNoLogger c"

fun apply_setters :: "setter list \<Rightarrow> SSHTunnel \<Rightarrow> SSHTunnel" where
  "apply_setters [] c = c"
| "apply_setters (x # xs) c = apply_setters xs (apply_setter x c)"

text \<open>
  The tunnel that \<open>main\<close> builds from its flags: the flags \<open>sshhost\<close> and
  \<open>sshport\<close> make the address of the SSH server, \<open>lport\<close> and \<open>rport\<close> are
  passed on as they are.
\<close>

definition main_tunnel :: "ClientConfig \<Rightarrow> string \<Rightarrow> string \<Rightarrow> string \<Rightarrow> string \<Rightarrow> SSHTunnel" where
  "main_tunnel cfg sshhost sshport lport rport =
     NewSSHTunnel cfg (sshhost @ '':'' @ sshport) lport rport"

definition emit :: "event \<Rightarrow> SSHTunnel \<Rightarrow> SSHTunnel" where
  "emit e c = c\<lparr>trace := trace c @ [e]\<rparr>"

definition log :: "string \<Rightarrow> SSHTunnel \<Rightarrow> SSHTunnel" where
  "log fmt c = emit (Log fmt) c"

section \<open>Closing the handles, connecting, dialing, listening, accepting\<close>

text \<open>
  What a collaborator answers is an input of the model: each function takes the
  results of the external calls it may make. A call that returns
  \<open>(value, error)\<close> is a sum, \<open>Inl\<close> the error; a call that returns only an
  error is an \<open>error option\<close>, \<open>None\<close> for nil.
\<close>

definition closeSSH :: "error option \<Rightarrow> SSHTunnel \<Rightarrow> SSHTunnel" where
  "closeSSH close_res c =
     (let c1 =
        (case sshClient c of
           Some cl \<Rightarrow>
             (let c2 = emit (ClientClose cl) c;
                  c3 = (if close_res \<noteq> None \<and> close_res \<noteq> Some EOF
                        then log ''sshClient.Close failed: %v'' c2 else c2)
              in c3\<lparr>sshClient := None\<rparr>)
         | None \<Rightarrow> c)
      in log ''Closed sshClient'' c1)"

definition closeListener :: "error option \<Rightarrow> SSHTunnel \<Rightarrow> SSHTunnel" where
  "closeListener close_res c =
     (let c1 =
        (case listener c of
           Some l \<Rightarrow>
             (let c2 = emit (ListenerClose l) c;
                  c3 = (if close_res \<noteq> None \<and> close_res \<noteq> Some EOF
                        then log ''listener.Close failed: %v'' c2 else c2)
              in c3\<lparr>listener := None\<rparr>)
         | None \<Rightarrow> c)
      in log ''Closed listener'' c1)"

definition closeInternal :: "error option \<Rightarrow> error option \<Rightarrow> SSHTunnel \<Rightarrow> SSHTunnel" where
  "closeInternal lres cres c = closeSSH cres (closeListener lres c)"

text \<open>
  \<open>sshConnect\<close>: under the mutex, close the old client, call \<open>ssh.Dial\<close>, and
  store the new client only when the call succeeded. After a failed call the
  handle stays nil, as \<open>closeSSH\<close> left it.
\<close>

record connect_env =
  client_close_res :: "error option"
  ssh_dial_res :: "error + client"

definition sshConnect :: "connect_env \<Rightarrow> SSHTunnel \<Rightarrow> error option \<times> SSHTunnel" where
  "sshConnect env c =
     (let c1 = emit MxLock c;
          c2 = closeSSH (client_close_res env) c1;
          c3 = log ''ssh.Connect...'' c2;
          c4 = emit (SshConnectCall (host c3)) c3
      in case ssh_dial_res env of
           Inl err \<Rightarrow> (Some err, emit MxUnlock (log ''ssh.Connect failed: %v'' c4))
         | Inr cl \<Rightarrow>
             (None, emit MxUnlock ((log ''ssh.Connect successful'' c4)\<lparr>sshClient := Some cl\<rparr>)))"

definition netDial :: "error + conn \<Rightarrow> SSHTunnel \<Rightarrow> (error + conn) \<times> SSHTunnel" where
  "netDial dial_res c =
     (let c1 = log ''net.Dial to %s/%s...'' c;
          c2 = emit (NetDial (netNetwork c1) (netAddress c1)) c1
      in case dial_res of
           Inl err \<Rightarrow> (Inl err, log ''net.Dial failed: %v'' c2)
         | Inr cn \<Rightarrow> (Inr cn, log ''net.Dial successful'' c2))"

text \<open>
  How a call ends: it returns, or the goroutine panics (which ends the whole
  process), or it waits for something that the call itself does not bring about.
\<close>

datatype 'a outcome = Returned 'a | Panicked | Blocked

text \<open>
  \<open>sshDial\<close> and \<open>sshListen\<close> call a method of \<open>c.sshClient\<close> a second time
  after \<open>sshConnect\<close>, without looking at the handle again. Two things decide
  what that second call does.

  The handle it reads. \<open>sshConnect\<close> has released the mutex when it returns,
  and the handle is read after that: between the two, other goroutines run
  (another proxy task in \<open>sshConnect\<close>, a \<open>Close\<close>). What they did to the handle
  in that time is an input, \<open>handle_change\<close>. The trace holds the calls of the
  goroutine that runs the function, not those of the others. The first call
  follows the test of the handle at once and is made on the handle that the
  test read.

  The receiver. The methods \<open>Dial\<close> and \<open>Listen\<close> of the SSH library parse the
  address before they use the receiver. On a nil \<open>*ssh.Client\<close> they return
  the parse error of an address that does not parse (\<open>NilReceiverCall\<close>), and
  for an address that parses they read a field of the client: a nil pointer
  dereference, which panics. What parsing the address returns is an input;
  \<open>localhost:\<close> followed by a decimal port below 65536 parses.
\<close>

datatype handle_change = Untouched | ChangedTo "client option"

definition other_goroutines :: "handle_change \<Rightarrow> SSHTunnel \<Rightarrow> SSHTunnel" where
  "other_goroutines ch c = (case ch of Untouched \<Rightarrow> c | ChangedTo h \<Rightarrow> c\<lparr>sshClient := h\<rparr>)"

text \<open>
  The handle that the second call reads: the one that \<open>sshConnect\<close> left (the
  new client, or nil after a failed \<open>ssh.Dial\<close>), unless other goroutines have
  changed it since.
\<close>

definition handle_read_at_retry :: "handle_change \<Rightarrow> connect_env \<Rightarrow> client option" where
  "handle_read_at_retry ch env =
     (case ch of
        ChangedTo h \<Rightarrow> h
      | Untouched \<Rightarrow> (case ssh_dial_res env of Inl err \<Rightarrow> None | Inr cl \<Rightarrow> Some cl))"

record dial_env =
  first_dial :: "error + conn"
  reconnect :: connect_env
  handle_at_retry :: handle_change
  retry_addr_err :: "error option"
  second_dial :: "error + conn"

definition sshDial :: "dial_env \<Rightarrow> SSHTunnel \<Rightarrow> (error + conn) outcome \<times> SSHTunnel" where
  "sshDial env c =
     (let c0 = log ''ssh.Dial to %s/%s...'' c in
      case sshClient c0 of
        Some cl \<Rightarrow>
          (let c1 = emit (ClientDial cl (sshNetwork c0) (sshAddress c0)) c0 in
           case first_dial env of
             Inr cn \<Rightarrow> (Returned (Inr cn), log ''ssh.Dial successful'' c1)
           | Inl err \<Rightarrow>
               (let c2 = other_goroutines (handle_at_retry env)
                           (snd (sshConnect (reconnect env) c1)) in
                case sshClient c2 of
                  None \<Rightarrow>
                    (case retry_addr_err env of
                       None \<Rightarrow> (Panicked, emit NilDereference c2)
                     | Some err2 \<Rightarrow>
                         (Returned (Inl err2),
                          log ''ssh.Dial failed: %v'' (emit NilReceiverCall c2)))
                | Some cl2 \<Rightarrow>
                    (let c3 = emit (ClientDial cl2 (sshNetwork c2) (sshAddress c2)) c2 in
                     case second_dial env of
                       Inl err2 \<Rightarrow> (Returned (Inl err2), log ''ssh.Dial failed: %v'' c3)
                     | Inr cn \<Rightarrow> (Returned (Inr cn), log ''ssh.Dial successful'' c3))))
      | None \<Rightarrow>
          (Returned (Inl (ErrNew ''sshClient is nil'')),
           log ''ssh.Dial failed: sshClient is nil'' c0))"

definition netListen :: "error + listener_handle \<Rightarrow> SSHTunnel \<Rightarrow> error option \<times> SSHTunnel" where
  "netListen listen_res c =
     (let c1 = log ''net.Listen on %s/%s...'' c;
          c2 = emit (NetListen (netNetwork c1) (netAddress c1)) c1
      in case listen_res of
           Inl err \<Rightarrow> (Some err, log ''net.Listen failed: %v'' c2)
         | Inr l \<Rightarrow> (None, (log ''net.Listen successful'' c2)\<lparr>listener := Some l\<rparr>))"

record listen_env =
  first_listen :: "error + listener_handle"
  relisten_connect :: connect_env
  handle_at_relisten :: handle_change
  relisten_addr_err :: "error option"
  second_listen :: "error + listener_handle"

definition sshListen :: "listen_env \<Rightarrow> SSHTunnel \<Rightarrow> (error option) outcome \<times> SSHTunnel" where
  "sshListen env c =
     (let c0 = log ''ssh.Listen on %s/%s...'' c in
      case sshClient c0 of
        Some cl \<Rightarrow>
          (let c1 = emit (ClientListen cl (sshNetwork c0) (sshAddress c0)) c0 in
           case first_listen env of
             Inr l \<Rightarrow> (Returned None, (log ''ssh.Listen successful'' c1)\<lparr>listener := Some l\<rparr>)
           | Inl err \<Rightarrow>
               (let c2 = other_goroutines (handle_at_relisten env)
                           (snd (sshConnect (relisten_connect env) c1)) in
                case sshClient c2 of
                  None \<Rightarrow>
                    (case relisten_addr_err env of
                       None \<Rightarrow> (Panicked, emit NilDereference c2)
                     | Some err2 \<Rightarrow>
                         (Returned (Some err2),
                          log ''ssh.Listen failed: %v'' (emit NilReceiverCall c2)))
                | Some cl2 \<Rightarrow>
                    (let c3 = emit (ClientListen cl2 (sshNetwork c2) (sshAddress c2)) c2 in
                     case second_listen env of
                       Inl err2 \<Rightarrow> (Returned (Some err2), log ''ssh.Listen failed: %v'' c3)
                     | Inr l \<Rightarrow>
                         (Returned None,
                          (log ''ssh.Listen successful'' c3)\<lparr>listener := Some l\<rparr>))))
      | None \<Rightarrow>
          (Returned (Some (ErrNew ''sshClient is nil'')),
           log ''ssh.Listen failed: sshClient is nil'' c0))"

definition accept :: "error + conn \<Rightarrow> SSHTunnel \<Rightarrow> (error + conn) \<times> SSHTunnel" where
  "accept accept_res c =
     (case listener c of
        Some l \<Rightarrow>
          (let c1 = emit (ListenerAccept l) c in
           case accept_res of
             Inr cn \<Rightarrow> (Inr cn, log ''accept successful'' c1)
           | Inl err \<Rightarrow> (Inl err, log ''accept failed: %v'' c1))
      | None \<Rightarrow> (Inl (ErrNew ''listener is nil''), c))"

section \<open>Proxy tasks\<close>

text \<open>
  \<open>wg.Done()\<close> decrements the counter of the wait group and panics when the
  counter would become negative.
\<close>

definition wgDone :: "SSHTunnel \<Rightarrow> unit outcome \<times> SSHTunnel" where
  "wgDone c = (if wg c = 0 then (Panicked, c) else (Returned (), c\<lparr>wg := wg c - 1\<rparr>))"

text \<open>
  One direction of \<open>io.Copy\<close> either returns, with an error or nil, or never
  returns (a read that blocks for ever).
\<close>

datatype copy_outcome = CopyBlocks | CopyReturns "error option"

text \<open>
  What \<open>io.Copy(dst, src)\<close> returns is decided by what arrives on \<open>src\<close> and by
  the deadlines of the two connections. The input for one side of the pair is
  the chunks of data that become readable on it, each with the instant of its
  arrival and with what writing it to the other side returns, and how the side
  ends after the last chunk: silent for ever, end of file at an instant, or a
  read error at an instant.

  \<open>net.Conn\<close> documents a deadline as an absolute time after which reads and
  writes fail instead of blocking, and \<open>io.Copy\<close> as copying until end of file
  on \<open>src\<close> (it then returns nil) or the first error (it returns that error).
  So: a read of a side with a deadline returns a deadline error once the
  deadline is past, a read of a silent side without a deadline never returns,
  and a write to a side whose deadline is past fails with a deadline error.
\<close>

datatype side_end = Silent | Eof int | ReadFails int error

record side_input =
  chunks :: "(int \<times> error option) list"
  ending :: side_end

definition past :: "int option \<Rightarrow> int \<Rightarrow> bool" where
  "past dl t = (case dl of Some d \<Rightarrow> d < t | None \<Rightarrow> False)"

text \<open>
  \<open>io.Copy\<close> returns what it has written and the error. Here the first is the
  list of the arrival instants of the chunks that it read and wrote.
\<close>

fun io_Copy :: "int option \<Rightarrow> int option \<Rightarrow> (int \<times> error option) list \<Rightarrow> side_end \<Rightarrow> int list \<times> copy_outcome" where
  "io_Copy dst_dl src_dl [] Silent =
     ([], case src_dl of Some d \<Rightarrow> CopyReturns (Some ErrDeadlineExceeded) | None \<Rightarrow> CopyBlocks)"
| "io_Copy dst_dl src_dl [] (Eof t) =
     ([], if past src_dl t then CopyReturns (Some ErrDeadlineExceeded) else CopyReturns None)"
| "io_Copy dst_dl src_dl [] (ReadFails t err) =
     ([], if past src_dl t then CopyReturns (Some ErrDeadlineExceeded) else CopyReturns (Some err))"
| "io_Copy dst_dl src_dl ((t, w) # cs) fin =
     (if past src_dl t \<or> past dst_dl t then ([], CopyReturns (Some ErrDeadlineExceeded))
      else (case w of
              Some err \<Rightarrow> ([], CopyReturns (Some err))
            | None \<Rightarrow>
                (case io_Copy dst_dl src_dl cs fin of (written, oc) \<Rightarrow> (t # written, oc))))"

text \<open>
  \<open>copy_schedule\<close> is the order in which the scheduler lets the two copy
  goroutines make their moves: \<open>True\<close> for a move of the first, \<open>False\<close> for a
  move of the second.
\<close>

record copy_env =
  now :: int
  set_deadline_res :: "error option"
  from_remote :: side_input
  from_local :: side_input
  copy_schedule :: "bool list"
  lconn_close_res :: "error option"
  rconn_close_res :: "error option"

text \<open>
  The connections of a pair are new when the copying stage starts (just
  accepted, just dialed): the only deadline on the local side is the one that
  the stage sets, when \<open>SetDeadline\<close> returned nil; the remote side has none.
\<close>

definition local_deadline :: "copy_env \<Rightarrow> SSHTunnel \<Rightarrow> int option" where
  "local_deadline env c =
     (if set_deadline_res env = None then Some (now env + sint (ioTimeout c)) else None)"

text \<open>\<open>io.Copy(lConn, rConn)\<close> of the first goroutine, \<open>io.Copy(rConn, lConn)\<close> of the second.\<close>

definition copy_to_local :: "copy_env \<Rightarrow> SSHTunnel \<Rightarrow> copy_outcome" where
  "copy_to_local env c =
     snd (io_Copy (local_deadline env c) None (chunks (from_remote env)) (ending (from_remote env)))"

definition copy_to_remote :: "copy_env \<Rightarrow> SSHTunnel \<Rightarrow> copy_outcome" where
  "copy_to_remote env c =
     snd (io_Copy None (local_deadline env c) (chunks (from_local env)) (ending (from_local env)))"

text \<open>What the two directions have written when they return.\<close>

definition written_to_local :: "copy_env \<Rightarrow> SSHTunnel \<Rightarrow> int list" where
  "written_to_local env c =
     fst (io_Copy (local_deadline env c) None (chunks (from_remote env)) (ending (from_remote env)))"

definition written_to_remote :: "copy_env \<Rightarrow> SSHTunnel \<Rightarrow> int list" where
  "written_to_remote env c =
     fst (io_Copy None (local_deadline env c) (chunks (from_local env)) (ending (from_local env)))"

text \<open>
  What a copy goroutine does after \<open>io.Copy(dst, src)\<close> has returned: a log line
  for an error that is neither end of file nor a passed deadline, then the
  deferred \<open>wg.Done()\<close> of the task's own wait group (\<open>CopyDone\<close>).
\<close>

definition copy_goroutine :: "string \<Rightarrow> conn \<Rightarrow> conn \<Rightarrow> copy_outcome \<Rightarrow> event list" where
  "copy_goroutine fmt dst src oc =
     (case oc of
        CopyBlocks \<Rightarrow> []
      | CopyReturns err \<Rightarrow>
          (if err \<noteq> None \<and> err \<noteq> Some EOF \<and> err \<noteq> Some ErrDeadlineExceeded
           then [Log fmt] else []) @ [CopyDone dst src])"

text \<open>The moves of two goroutines, merged as the schedule says.\<close>

fun interleave :: "bool list \<Rightarrow> 'a list \<Rightarrow> 'a list \<Rightarrow> 'a list" where
  "interleave bs [] ys = ys"
| "interleave bs xs [] = xs"
| "interleave [] xs ys = xs @ ys"
| "interleave (True # bs) (x # xs) ys = x # interleave bs xs ys"
| "interleave (False # bs) xs (y # ys) = y # interleave bs xs ys"

text \<open>
  The copying stage of a proxy task, from \<open>lConn.SetDeadline\<close> to
  \<open>rConn.Close()\<close> and the deferred \<open>c.wg.Done()\<close>. The text of this stage is
  the same in \<open>ForwardTunnel\<close> and in \<open>ReverseTunnel\<close>. The two copy goroutines
  run concurrently: the trace holds their moves in the order of the schedule.
  The task's own calls are in program order: the two \<open>go\<close> statements
  (\<open>GoCopy\<close>), then the call of \<open>wg.Wait()\<close> (\<open>WaitCopies\<close>), which returns only
  when both goroutines have made their \<open>wg.Done()\<close>. The trace puts the moves of
  the goroutines after \<open>WaitCopies\<close>; a goroutine that finishes before the task
  has reached \<open>wg.Wait()\<close> is recorded there too, so the place of a \<open>CopyDone\<close>
  relative to the second \<open>GoCopy\<close> and to \<open>WaitCopies\<close> says nothing.
\<close>

definition copyStage :: "copy_env \<Rightarrow> conn \<Rightarrow> conn \<Rightarrow> SSHTunnel \<Rightarrow> unit outcome \<times> SSHTunnel" where
  "copyStage env lConn rConn c =
     (let c1 = emit (ConnSetDeadline lConn (now env + sint (ioTimeout c)) (set_deadline_res env)) c;
          c2 = (if set_deadline_res env \<noteq> None then log ''SetDeadline failed: %v'' c1 else c1);
          c3 = emit (GoCopy lConn rConn) c2;
          c4 = emit (GoCopy rConn lConn) c3;
          c5 = emit WaitCopies c4;
          c6 = c5\<lparr>trace := trace c5 @
                 interleave (copy_schedule env)
                   (copy_goroutine ''io.Copy (1 / local -> remote) failed: %v''
                      lConn rConn (copy_to_local env c))
                   (copy_goroutine ''io.Copy (2 / remote -> local) failed: %v''
                      rConn lConn (copy_to_remote env c))\<rparr>
      in if copy_to_local env c = CopyBlocks \<or> copy_to_remote env c = CopyBlocks
         then (Blocked, c6)
         else
           (let c8 = emit (ConnClose lConn) c6;
                c9 = (if lconn_close_res env \<noteq> None \<and> lconn_close_res env \<noteq> Some EOF
                      then log ''lConn.Close failed: %v'' c8 else c8);
                c10 = emit (ConnClose rConn) c9;
                c11 = (if rconn_close_res env \<noteq> None \<and> rconn_close_res env \<noteq> Some EOF
                       then log ''rConn.Close failed: %v'' c10 else c10)
            in wgDone c11))"

record forward_env =
  fp_dial :: dial_env
  fp_abort_close_res :: "error option"
  fp_copy :: copy_env

text \<open>The goroutine that \<open>ForwardTunnel\<close> starts for an accepted local connection.\<close>

definition forwardProxy :: "forward_env \<Rightarrow> conn \<Rightarrow> SSHTunnel \<Rightarrow> unit outcome \<times> SSHTunnel" where
  "forwardProxy env lConn c =
     (case sshDial (fp_dial env) c of
        (Panicked, c1) \<Rightarrow> (Panicked, c1)
      | (Blocked, c1) \<Rightarrow> (Blocked, c1)
      | (Returned (Inl err), c1) \<Rightarrow>
          (let c2 = emit (ConnClose lConn) c1;
               c3 = (if fp_abort_close_res env \<noteq> None \<and> fp_abort_close_res env \<noteq> Some EOF
                     then log ''lConn.Close failed: %v'' c2 else c2);
               c4 = emit (Sleep (attemptSleepTime c3)) c3
           in wgDone c4)
      | (Returned (Inr rConn), c1) \<Rightarrow> copyStage (fp_copy env) lConn rConn c1)"

record reverse_env =
  rp_dial :: "error + conn"
  rp_abort_close_res :: "error option"
  rp_copy :: copy_env

text \<open>The goroutine that \<open>ReverseTunnel\<close> starts for an accepted remote connection.\<close>

definition reverseProxy :: "reverse_env \<Rightarrow> conn \<Rightarrow> SSHTunnel \<Rightarrow> unit outcome \<times> SSHTunnel" where
  "reverseProxy env rConn c =
     (case netDial (rp_dial env) c of
        (Inl err, c1) \<Rightarrow>
          (let c2 = emit (ConnClose rConn) c1;
               c3 = (if rp_abort_close_res env \<noteq> None \<and> rp_abort_close_res env \<noteq> Some EOF
                     then log ''rConn.Close failed: %v'' c2 else c2);
               c4 = emit (Sleep (attemptSleepTime c3)) c3
           in wgDone c4)
      | (Inr lConn, c1) \<Rightarrow> copyStage (rp_copy env) lConn rConn c1)"

section \<open>Starting, closing and the supervisory loop\<close>

text \<open>
  \<open>ForwardTunnel\<close> and \<open>ReverseTunnel\<close> log, add one to the wait group and start
  the supervisory goroutine; nothing in them waits.
\<close>

definition ForwardTunnel :: "SSHTunnel \<Rightarrow> SSHTunnel" where
  "ForwardTunnel c =
     (let c1 = log ''Starting Tunnel'' c;
          c2 = c1\<lparr>wg := wg c1 + 1\<rparr>
      in emit (GoSupervisor Forward) c2)"




text \<open>
  The supervisory goroutine, one step at a time. The goroutines of
  \<open>ForwardTunnel\<close> and \<open>ReverseTunnel\<close> differ in the listen call
  (\<open>netListen\<close> or \<open>sshListen\<close>) and in the proxy task they start; the loops are
  the same. A step is: the first \<open>sshConnect\<close>; or one test of the outer loop
  with its listen call; or one test of the inner loop with its accept call.
\<close>

datatype sup_pc = AtStart | AtListenLoop | AtAcceptLoop | Stopped | Crashed

record sup_env =
  sup_connect :: connect_env
  sup_net_listen :: "error + listener_handle"
  sup_ssh_listen :: listen_env
  sup_accept :: "error + conn"
  sup_listener_close_res :: "error option"

definition listen_call :: "orientation \<Rightarrow> sup_env \<Rightarrow> SSHTunnel \<Rightarrow> (error option) outcome \<times> SSHTunnel" where
  "listen_call ori env c =
     (case ori of
        Forward \<Rightarrow> (case netListen (sup_net_listen env) c of (r, c1) \<Rightarrow> (Returned r, c1))
      | Reverse \<Rightarrow> sshListen (sup_ssh_listen env) c)"

definition supervisor_step :: "orientation \<Rightarrow> sup_env \<Rightarrow> sup_pc \<times> SSHTunnel \<Rightarrow> sup_pc \<times> SSHTunnel" where
  "supervisor_step ori env st =
     (case st of (pc, c) \<Rightarrow>
        (case pc of
           AtStart \<Rightarrow>
             (AtListenLoop, snd (sshConnect (sup_connect env) (log ''Started Tunnel'' c)))
         | AtListenLoop \<Rightarrow>
             (if closed c
              then (case wgDone (log ''Stopped Tunnel'' c) of
                      (Returned u, c1) \<Rightarrow> (Stopped, c1)
                    | (Panicked, c1) \<Rightarrow> (Crashed, c1)
                    | (Blocked, c1) \<Rightarrow> (Crashed, c1))
              else (case listen_call ori env c of
                      (Returned None, c1) \<Rightarrow> (AtAcceptLoop, c1)
                    | (Returned (Some err), c1) \<Rightarrow>
                        (AtListenLoop, emit (Sleep (attemptSleepTime c1)) c1)
                    | (Panicked, c1) \<Rightarrow> (Crashed, c1)
                    | (Blocked, c1) \<Rightarrow> (Crashed, c1)))
         | AtAcceptLoop \<Rightarrow>
             (if closed c then (AtListenLoop, c)
              else (case accept (sup_accept env) c of
                      (Inl err, c1) \<Rightarrow>
                        (let c2 = closeListener (sup_listener_close_res env) c1
                         in (AtListenLoop, emit (Sleep (attemptSleepTime c2)) c2))
                    | (Inr cn, c1) \<Rightarrow>
                        (AtAcceptLoop, emit (GoProxy cn) (c1\<lparr>wg := wg c1 + 1\<rparr>))))
         | Stopped \<Rightarrow> (Stopped, c)
         | Crashed \<Rightarrow> (Crashed, c)))"

fun supervisor_run :: "orientation \<Rightarrow> sup_env list \<Rightarrow> sup_pc \<times> SSHTunnel \<Rightarrow> sup_pc \<times> SSHTunnel" where
  "supervisor_run ori [] st = st"
| "supervisor_run ori (env # envs) st = supervisor_run ori envs (supervisor_step ori env st)"

text \<open>
  \<open>wg.Wait()\<close> returns when the counter of the wait group is zero. While the
  caller waits, the other goroutines run. What they do in that time is an
  input: a list of activities, each a run of steps of a supervisory goroutine
  or a whole proxy task, one after the other. A goroutine that panics ends the
  process, and the waiting call with it. When the counter is still positive
  after the activities, the call has not returned: \<open>Blocked\<close>.
\<close>

datatype activity =
    SupervisorSteps orientation sup_pc "sup_env list"
  | ForwardTask forward_env conn
  | ReverseTask reverse_env conn

fun run_activity :: "activity \<Rightarrow> SSHTunnel \<Rightarrow> unit outcome \<times> SSHTunnel" where
  "run_activity (SupervisorSteps ori pc envs) c =
     (case supervisor_run ori envs (pc, c) of
        (AtStart, c1) \<Rightarrow> (Blocked, c1)
      | (AtListenLoop, c1) \<Rightarrow> (Blocked, c1)
      | (AtAcceptLoop, c1) \<Rightarrow> (Blocked, c1)
      | (Stopped, c1) \<Rightarrow> (Returned (), c1)
      | (Crashed, c1) \<Rightarrow> (Panicked, c1))"
| "run_activity (ForwardTask env lConn) c = forwardProxy env lConn c"
| "run_activity (ReverseTask env rConn) c = reverseProxy env rConn c"

fun run_activities :: "activity list \<Rightarrow> SSHTunnel \<Rightarrow> unit outcome \<times> SSHTunnel" where
  "run_activities [] c = (Returned (), c)"
| "run_activities (a # acts) c =
     (case run_activity a c of
        (Panicked, c1) \<Rightarrow> (Panicked, c1)
      | (Returned u, c1) \<Rightarrow> run_activities acts c1
      | (Blocked, c1) \<Rightarrow> run_activities acts c1)"

definition wgWait :: "activity list \<Rightarrow> SSHTunnel \<Rightarrow> unit outcome \<times> SSHTunnel" where
  "wgWait others c =
     (case run_activities others c of
        (Panicked, c1) \<Rightarrow> (Panicked, c1)
      | (Returned u, c1) \<Rightarrow> (if wg c1 = 0 then (Returned (), c1) else (Blocked, c1))
      | (Blocked, c1) \<Rightarrow> (Blocked, c1))"

definition Close :: "error option \<Rightarrow> error option \<Rightarrow> activity list \<Rightarrow> SSHTunnel \<Rightarrow> unit outcome \<times> SSHTunnel" where
  "Close lres cres others c =
     (let c1 = c\<lparr>closed := True\<rparr>;
          c2 = closeInternal lres cres c1
      in case wgWait others c2 of
           (Returned u, c3) \<Rightarrow> (Returned (), log ''Close successful'' c3)
         | (Panicked, c3) \<Rightarrow> (Panicked, c3)
         | (Blocked, c3) \<Rightarrow> (Blocked, c3))"

definition Wait :: "activity list \<Rightarrow> SSHTunnel \<Rightarrow> unit outcome \<times> SSHTunnel" where
  "Wait others c = wgWait others c"

section \<open>Reading a trace\<close>

fun is_log :: "event \<Rightarrow> bool" where
  "is_log (Log m) = True"
| "is_log e = False"

fun is_connect_call :: "event \<Rightarrow> bool" where
  "is_connect_call (SshConnectCall h) = True"
| "is_connect_call e = False"


fun is_conn_close :: "event \<Rightarrow> bool" where
  "is_conn_close (ConnClose cn) = True"
| "is_conn_close e = False"

text \<open>The moves of a copy goroutine after its \<open>io.Copy\<close>: log lines and \<open>CopyDone\<close>.\<close>

fun copy_move :: "event \<Rightarrow> bool" where
  "copy_move (Log m) = True"
| "copy_move (CopyDone dst src) = True"
| "copy_move e = False"


fun deadline_calls :: "event list \<Rightarrow> (conn \<times> int) list" where
  "deadline_calls [] = []"
| "deadline_calls (ConnSetDeadline cn t r # es) = (cn, t) # deadline_calls es"
| "deadline_calls (e # es) = deadline_calls es"

text \<open>
  The deadline in force on a connection after a trace: the instant of the last
  \<open>SetDeadline\<close> on it that returned nil.
\<close>

fun deadline_in_force :: "conn \<Rightarrow> event list \<Rightarrow> int option" where
  "deadline_in_force cn [] = None"
| "deadline_in_force cn (ConnSetDeadline cn' t r # es) =
     (case deadline_in_force cn es of
        Some d \<Rightarrow> Some d
      | None \<Rightarrow> (if cn' = cn \<and> r = None then Some t else None))"
| "deadline_in_force cn (e # es) = deadline_in_force cn es"

text \<open>The calls other than log lines.\<close>

definition calls :: "event list \<Rightarrow> event list" where
  "calls tr = filter (\<lambda>e. \<not> is_log e) tr"

definition connect_calls :: "event list \<Rightarrow> nat" where
  "connect_calls tr = length (filter is_connect_call tr)"

section \<open>Several goroutines in \<open>sshConnect\<close>\<close>

text \<open>
  Every \<open>ssh.Dial\<close> of the package is the one in \<open>sshConnect\<close>, between
  \<open>c.mx.Lock()\<close> and the deferred \<open>c.mx.Unlock()\<close>. Goroutines (the supervisory
  loop, the proxy tasks) call \<open>sshConnect\<close> concurrently; here each goroutine is
  at one of the places of \<open>sshConnect\<close>, and a scheduler picks which goroutine
  makes the next move. \<open>Lock\<close> on a locked mutex does not move.
\<close>

datatype connect_pc = Outside | AtLock | AtCloseSSH | AtSshDial | AtUnlock

record connect_state =
  mx_locked :: bool
  pcs :: "connect_pc list"
  shared_client :: "client option"

definition connect_init :: "nat \<Rightarrow> client option \<Rightarrow> connect_state" where
  "connect_init n cl = \<lparr> mx_locked = False, pcs = replicate n Outside, shared_client = cl \<rparr>"

definition connect_move :: "nat \<times> (error + client) \<Rightarrow> connect_state \<Rightarrow> connect_state" where
  "connect_move mv s =
     (case mv of (g, dial_res) \<Rightarrow>
        if length (pcs s) \<le> g then s
        else
          (case pcs s ! g of
             Outside \<Rightarrow> s\<lparr>pcs := (pcs s)[g := AtLock]\<rparr>
           | AtLock \<Rightarrow>
               (if mx_locked s then s
                else s\<lparr>mx_locked := True, pcs := (pcs s)[g := AtCloseSSH]\<rparr>)
           | AtCloseSSH \<Rightarrow> s\<lparr>shared_client := None, pcs := (pcs s)[g := AtSshDial]\<rparr>
           | AtSshDial \<Rightarrow>
               (case dial_res of
                  Inl err \<Rightarrow> s\<lparr>pcs := (pcs s)[g := AtUnlock]\<rparr>
                | Inr cl \<Rightarrow> s\<lparr>shared_client := Some cl, pcs := (pcs s)[g := AtUnlock]\<rparr>)
           | AtUnlock \<Rightarrow> s\<lparr>mx_locked := False, pcs := (pcs s)[g := Outside]\<rparr>))"

fun connect_schedule :: "(nat \<times> (error + client)) list \<Rightarrow> connect_state \<Rightarrow> connect_state" where
  "connect_schedule [] s = s"
| "connect_schedule (mv # mvs) s = connect_schedule mvs (connect_move mv s)"

text \<open>A goroutine executes the body of \<open>sshConnect\<close> from the lock to the unlock.\<close>

fun in_connect :: "connect_pc \<Rightarrow> bool" where
  "in_connect AtCloseSSH = True"
| "in_connect AtSshDial = True"
| "in_connect AtUnlock = True"
| "in_connect pc = False"

definition connects_in_flight :: "connect_state \<Rightarrow> nat" where
  "connects_in_flight s = length (filter in_connect (pcs s))"

definition dials_in_flight :: "connect_state \<Rightarrow> nat" where
  "dials_in_flight s = length (filter (\<lambda>pc. pc = AtSshDial) (pcs s))"

text \<open>
  The invariant of the mutex: it is locked exactly when one goroutine is inside
  \<open>sshConnect\<close>, and free exactly when none is.
\<close>

definition mutex_inv :: "connect_state \<Rightarrow> bool" where
  "mutex_inv s = (connects_in_flight s = (if mx_locked s then 1 else 0))"

section \<open>Example inputs\<close>

text \<open>
  A tunnel with the default ports of \<open>main\<close>; the same tunnel with a
  session established and two goroutines counted in the wait group (the
  supervisory loop and one proxy task); an SSH server that refuses every
  connection and one that accepts; a stale session whose dial fails, with a
  server that refuses the reconnect, or accepts it but cannot reach the
  target; the tunnel after a failed connect, with the same two goroutines.
\<close>

definition example_tunnel :: SSHTunnel where
  "example_tunnel = NewSSHTunnel 0 ''example.org:22'' ''8080'' ''8080''"

definition established_tunnel :: SSHTunnel where
  "established_tunnel = example_tunnel\<lparr>sshClient := Some 1, wg := 2\<rparr>"


definition refused :: connect_env where
  "refused = \<lparr> client_close_res = None, ssh_dial_res = Inl (ErrOther 1) \<rparr>"

definition accepted :: connect_env where
  "accepted = \<lparr> client_close_res = None, ssh_dial_res = Inr 2 \<rparr>"

definition stale_then_refused :: dial_env where
  "stale_then_refused =
     \<lparr> first_dial = Inl (ErrOther 0), reconnect = refused, handle_at_retry = Untouched,
       retry_addr_err = None, second_dial = Inr 9 \<rparr>"


definition dial_succeeds :: dial_env where
  "dial_succeeds =
     \<lparr> first_dial = Inr 9, reconnect = refused, handle_at_retry = Untouched,
       retry_addr_err = None, second_dial = Inr 9 \<rparr>"

text \<open>
  Both copy directions fail at once, at the instant 2000, with read errors that
  are logged.
\<close>

definition both_copies_fail :: copy_env where
  "both_copies_fail =
     \<lparr> now = 1000, set_deadline_res = None,
       from_remote = \<lparr> chunks = [], ending = ReadFails 2000 (ErrOther 4) \<rparr>,
       from_local = \<lparr> chunks = [], ending = ReadFails 2000 (ErrOther 5) \<rparr>,
       copy_schedule = [False, False],
       lconn_close_res = None, rconn_close_res = None \<rparr>"

text \<open>An idle pair: no byte ever arrives on either side, and neither side ends.\<close>

definition idle_pair :: copy_env where
  "idle_pair =
     \<lparr> now = 1000, set_deadline_res = None,
       from_remote = \<lparr> chunks = [], ending = Silent \<rparr>,
       from_local = \<lparr> chunks = [], ending = Silent \<rparr>,
       copy_schedule = [],
       lconn_close_res = None, rconn_close_res = None \<rparr>"

text \<open>
  A pair on which bytes flow the whole time: a chunk arrives on each side
  every ten seconds, before and after the deadline, and every write succeeds.
\<close>

definition flowing_pair :: copy_env where
  "flowing_pair =
     \<lparr> now = 1000, set_deadline_res = None,
       from_remote = \<lparr> chunks = [(10000000000, None), (20000000000, None), (30000000000, None),
                                  (40000000000, None)], ending = Silent \<rparr>,
       from_local = \<lparr> chunks = [(5000000000, None), (15000000000, None), (25000000000, None),
                                 (35000000000, None)], ending = Silent \<rparr>,
       copy_schedule = [True],
       lconn_close_res = None, rconn_close_res = None \<rparr>"

definition all_refused :: sup_env where
  "all_refused =
     \<lparr> sup_connect = refused,
       sup_net_listen = Inl (ErrOther 6),
       sup_ssh_listen = \<lparr> first_listen = Inl (ErrOther 7), relisten_connect = refused,
                          handle_at_relisten = Untouched, relisten_addr_err = None,
                          second_listen = Inl (ErrOther 8) \<rparr>,
       sup_accept = Inl (ErrOther 9),
       sup_listener_close_res = None \<rparr>"

text \<open>A step of a supervisory goroutine for which the SSH server accepts the connection.\<close>

definition server_accepts :: sup_env where
  "server_accepts = all_refused\<lparr>sup_connect := accepted\<rparr>"

text \<open>
  \<open>Close\<close> right after \<open>ForwardTunnel\<close>: the supervisory goroutine makes its two
  steps (the first connect, then the test of the outer loop) while \<open>Close\<close>
  waits in \<open>wg.Wait()\<close>.
\<close>

definition close_after_start :: "unit outcome \<times> SSHTunnel" where
  "close_after_start =
     Close None None [SupervisorSteps Forward AtStart [server_accepts, server_accepts]]
       (ForwardTunnel example_tunnel)"


definition failing_copies_task :: forward_env where
  "failing_copies_task =
     \<lparr> fp_dial = dial_succeeds, fp_abort_close_res = None, fp_copy = both_copies_fail \<rparr>"

definition idle_task :: forward_env where
  "idle_task = \<lparr> fp_dial = dial_succeeds, fp_abort_close_res = None, fp_copy = idle_pair \<rparr>"

definition flowing_task :: forward_env where
  "flowing_task = \<lparr> fp_dial = dial_succeeds, fp_abort_close_res = None, fp_copy = flowing_pair \<rparr>"

definition reverse_task :: reverse_env where
  "reverse_task = \<lparr> rp_dial = Inr 7, rp_abort_close_res = None, rp_copy = both_copies_fail \<rparr>"

section \<open>Lemmas: fields and traces of the operations\<close>

lemma calls_append: "calls (xs @ ys) = calls xs @ calls ys"
  by (simp add: calls_def)

lemma emit_fields:
  "sshConfig (emit e c) = sshConfig c"
  "host (emit e c) = host c"
  "sshClient (emit e c) = sshClient c"
  "netNetwork (emit e c) = netNetwork c"
  "netAddress (emit e c) = netAddress c"
  "sshNetwork (emit e c) = sshNetwork c"
  "sshAddress (emit e c) = sshAddress c"
  "listener (emit e c) = listener c"
  "closed (emit e c) = closed c"
  "attemptSleepTime (emit e c) = attemptSleepTime c"
  "ioTimeout (emit e c) = ioTimeout c"
  "logger (emit e c) = logger c"
  "wg (emit e c) = wg c"
  "trace (emit e c) = trace c @ [e]"
  by (simp_all add: emit_def)

lemma log_fields:
  "sshConfig (log m c) = sshConfig c"
  "host (log m c) = host c"
  "sshClient (log m c) = sshClient c"
  "netNetwork (log m c) = netNetwork c"
  "netAddress (log m c) = netAddress c"
  "sshNetwork (log m c) = sshNetwork c"
  "sshAddress (log m c) = sshAddress c"
  "listener (log m c) = listener c"
  "closed (log m c) = closed c"
  "attemptSleepTime (log m c) = attemptSleepTime c"
  "ioTimeout (log m c) = ioTimeout c"
  "logger (log m c) = logger c"
  "wg (log m c) = wg c"
  "trace (log m c) = trace c @ [Log m]"
  by (simp_all add: log_def emit_fields)

lemma calls_simps:
  "calls [] = []"
  "calls (e # es) = (if is_log e then calls es else e # calls es)"
  "calls (if b then [Log m] else []) = []"
  by (simp_all add: calls_def)

lemma maybe_log_fields:
  "host (if b then log m c else c) = host c"
  "sshClient (if b then log m c else c) = sshClient c"
  "sshNetwork (if b then log m c else c) = sshNetwork c"
  "sshAddress (if b then log m c else c) = sshAddress c"
  "listener (if b then log m c else c) = listener c"
  "closed (if b then log m c else c) = closed c"
  "attemptSleepTime (if b then log m c else c) = attemptSleepTime c"
  "ioTimeout (if b then log m c else c) = ioTimeout c"
  "wg (if b then log m c else c) = wg c"
  "trace (if b then log m c else c) = trace c @ (if b then [Log m] else [])"
  by (simp_all add: log_fields)

lemmas tr_simps = emit_fields log_fields maybe_log_fields calls_append calls_simps

lemma closeSSH_fields:
  "sshClient (closeSSH r c) = None"
  "host (closeSSH r c) = host c"
  "sshNetwork (closeSSH r c) = sshNetwork c"
  "sshAddress (closeSSH r c) = sshAddress c"
  "listener (closeSSH r c) = listener c"
  "closed (closeSSH r c) = closed c"
  "attemptSleepTime (closeSSH r c) = attemptSleepTime c"
  "ioTimeout (closeSSH r c) = ioTimeout c"
  "wg (closeSSH r c) = wg c"
  by (cases "sshClient c"; simp add: closeSSH_def Let_def log_fields emit_fields maybe_log_fields)+

lemma calls_closeSSH:
  "calls (trace (closeSSH r c)) =
     calls (trace c) @ (case sshClient c of Some cl \<Rightarrow> [ClientClose cl] | None \<Rightarrow> [])"
  by (cases "sshClient c")
    (simp_all add: closeSSH_def Let_def tr_simps)

lemma closeListener_fields:
  "listener (closeListener r c) = None"
  "host (closeListener r c) = host c"
  "sshClient (closeListener r c) = sshClient c"
  "closed (closeListener r c) = closed c"
  "attemptSleepTime (closeListener r c) = attemptSleepTime c"
  "ioTimeout (closeListener r c) = ioTimeout c"
  "wg (closeListener r c) = wg c"
  by (cases "listener c"; simp add: closeListener_def Let_def log_fields emit_fields maybe_log_fields)+

lemma calls_closeListener:
  "calls (trace (closeListener r c)) =
     calls (trace c) @ (case listener c of Some l \<Rightarrow> [ListenerClose l] | None \<Rightarrow> [])"
  by (cases "listener c")
    (simp_all add: closeListener_def Let_def tr_simps)

lemma sshConnect_fields:
  "sshClient (snd (sshConnect env c)) =
     (case ssh_dial_res env of Inl err \<Rightarrow> None | Inr cl \<Rightarrow> Some cl)"
  "fst (sshConnect env c) = (case ssh_dial_res env of Inl err \<Rightarrow> Some err | Inr cl \<Rightarrow> None)"
  "host (snd (sshConnect env c)) = host c"
  "sshNetwork (snd (sshConnect env c)) = sshNetwork c"
  "sshAddress (snd (sshConnect env c)) = sshAddress c"
  "listener (snd (sshConnect env c)) = listener c"
  "closed (snd (sshConnect env c)) = closed c"
  "attemptSleepTime (snd (sshConnect env c)) = attemptSleepTime c"
  "ioTimeout (snd (sshConnect env c)) = ioTimeout c"
  "wg (snd (sshConnect env c)) = wg c"
  by (cases "ssh_dial_res env";
      simp add: sshConnect_def Let_def log_fields emit_fields closeSSH_fields)+

lemma calls_sshConnect:
  "calls (trace (snd (sshConnect env c))) =
     calls (trace c) @ [MxLock] @
     (case sshClient c of Some cl \<Rightarrow> [ClientClose cl] | None \<Rightarrow> []) @
     [SshConnectCall (host c), MxUnlock]"
  by (cases "ssh_dial_res env")
    (simp_all add: sshConnect_def Let_def tr_simps calls_closeSSH closeSSH_fields)

lemma other_goroutines_fields:
  "host (other_goroutines ch c) = host c"
  "sshNetwork (other_goroutines ch c) = sshNetwork c"
  "sshAddress (other_goroutines ch c) = sshAddress c"
  "listener (other_goroutines ch c) = listener c"
  "closed (other_goroutines ch c) = closed c"
  "attemptSleepTime (other_goroutines ch c) = attemptSleepTime c"
  "ioTimeout (other_goroutines ch c) = ioTimeout c"
  "wg (other_goroutines ch c) = wg c"
  "trace (other_goroutines ch c) = trace c"
  by (cases ch; simp add: other_goroutines_def)+

lemma other_goroutines_client:
  "sshClient (other_goroutines ch (snd (sshConnect env c))) = handle_read_at_retry ch env"
  by (cases ch; cases "ssh_dial_res env")
    (simp_all add: other_goroutines_def handle_read_at_retry_def sshConnect_fields)

lemmas dial_simps = sshDial_def Let_def tr_simps sshConnect_fields other_goroutines_fields
  other_goroutines_client

lemma sshDial_fields:
  "host (snd (sshDial env c)) = host c"
  "sshNetwork (snd (sshDial env c)) = sshNetwork c"
  "sshAddress (snd (sshDial env c)) = sshAddress c"
  "listener (snd (sshDial env c)) = listener c"
  "closed (snd (sshDial env c)) = closed c"
  "attemptSleepTime (snd (sshDial env c)) = attemptSleepTime c"
  "ioTimeout (snd (sshDial env c)) = ioTimeout c"
  "wg (snd (sshDial env c)) = wg c"
  by (cases "sshClient c"; cases "first_dial env";
      cases "handle_read_at_retry (handle_at_retry env) (reconnect env)";
      cases "retry_addr_err env"; cases "second_dial env";
      simp add: dial_simps)+

lemma sshDial_result:
  "fst (sshDial env c) =
     (case sshClient c of
        None \<Rightarrow> Returned (Inl (ErrNew ''sshClient is nil''))
      | Some cl \<Rightarrow>
          (case first_dial env of
             Inr cn \<Rightarrow> Returned (Inr cn)
           | Inl err \<Rightarrow>
               (case handle_read_at_retry (handle_at_retry env) (reconnect env) of
                  None \<Rightarrow>
                    (case retry_addr_err env of
                       None \<Rightarrow> Panicked
                     | Some err2 \<Rightarrow> Returned (Inl err2))
                | Some cl2 \<Rightarrow> Returned (second_dial env))))"
  by (cases "sshClient c"; cases "first_dial env";
      cases "handle_read_at_retry (handle_at_retry env) (reconnect env)";
      cases "retry_addr_err env"; cases "second_dial env";
      simp add: dial_simps)

lemma calls_sshDial:
  "calls (trace (snd (sshDial env c))) = calls (trace c) @
     (case sshClient c of
        None \<Rightarrow> []
      | Some cl \<Rightarrow>
          (case first_dial env of
             Inr cn \<Rightarrow> [ClientDial cl (sshNetwork c) (sshAddress c)]
           | Inl err \<Rightarrow>
               [ClientDial cl (sshNetwork c) (sshAddress c), MxLock, ClientClose cl,
                SshConnectCall (host c), MxUnlock] @
               (case handle_read_at_retry (handle_at_retry env) (reconnect env) of
                  None \<Rightarrow>
                    (case retry_addr_err env of
                       None \<Rightarrow> [NilDereference]
                     | Some err2 \<Rightarrow> [NilReceiverCall])
                | Some cl2 \<Rightarrow> [ClientDial cl2 (sshNetwork c) (sshAddress c)])))"
  by (cases "sshClient c"; cases "first_dial env";
      cases "handle_read_at_retry (handle_at_retry env) (reconnect env)";
      cases "retry_addr_err env"; cases "second_dial env";
      simp add: dial_simps calls_sshConnect)

lemma sshDial_client:
  "sshClient (snd (sshDial env c)) =
     (case sshClient c of
        None \<Rightarrow> None
      | Some cl \<Rightarrow>
          (case first_dial env of
             Inr cn \<Rightarrow> Some cl
           | Inl err \<Rightarrow> handle_read_at_retry (handle_at_retry env) (reconnect env)))"
  by (cases "sshClient c"; cases "first_dial env";
      cases "handle_read_at_retry (handle_at_retry env) (reconnect env)";
      cases "retry_addr_err env"; cases "second_dial env";
      simp add: dial_simps)

lemma deadline_calls_append:
  "deadline_calls (xs @ ys) = deadline_calls xs @ deadline_calls ys"
  by (induction xs rule: deadline_calls.induct) simp_all

lemma deadline_calls_maybe_log: "deadline_calls (if b then [Log m] else []) = []"
  by simp

lemma deadline_in_force_append:
  "deadline_in_force cn (xs @ ys) =
     (case deadline_in_force cn ys of Some d \<Rightarrow> Some d | None \<Rightarrow> deadline_in_force cn xs)"
  by (induction cn xs rule: deadline_in_force.induct) (simp_all split: option.splits)

lemma deadline_in_force_maybe_log: "deadline_in_force cn (if b then [Log m] else []) = None"
  by simp

lemma netDial_fields:
  "fst (netDial r c) = r"
  "sshClient (snd (netDial r c)) = sshClient c"
  "attemptSleepTime (snd (netDial r c)) = attemptSleepTime c"
  "ioTimeout (snd (netDial r c)) = ioTimeout c"
  "wg (snd (netDial r c)) = wg c"
  "closed (snd (netDial r c)) = closed c"
  by (cases r; simp add: netDial_def Let_def tr_simps)+

lemma trace_netDial:
  "trace (snd (netDial r c)) = trace c @
     [Log ''net.Dial to %s/%s...'', NetDial (netNetwork c) (netAddress c),
      Log (case r of Inl err \<Rightarrow> ''net.Dial failed: %v'' | Inr cn \<Rightarrow> ''net.Dial successful'')]"
  by (cases r; simp add: netDial_def Let_def tr_simps)

lemma wgDone_fields:
  "fst (wgDone c) = (if wg c = 0 then Panicked else Returned ())"
  "trace (snd (wgDone c)) = trace c"
  "sshClient (snd (wgDone c)) = sshClient c"
  "closed (snd (wgDone c)) = closed c"
  "wg (snd (wgDone c)) = wg c - 1"
  by (simp_all add: wgDone_def)

lemma deadline_calls_calls: "deadline_calls (calls xs) = deadline_calls xs"
  by (induction xs rule: deadline_calls.induct) (simp_all add: calls_simps)

lemma set_interleave: "set (interleave bs xs ys) = set xs \<union> set ys"
  by (induction bs xs ys rule: interleave.induct) auto

lemma list_all_interleave:
  "list_all P (interleave bs xs ys) = (list_all P xs \<and> list_all P ys)"
  by (auto simp add: list_all_iff set_interleave)

lemma interleave_Nil2: "interleave bs xs [] = xs"
  by (cases xs) simp_all

lemma interleave_no_schedule: "interleave [] xs ys = xs @ ys"
  by (cases xs; cases ys) simp_all

lemma calls_interleave:
  "\<exists>bs'. calls (interleave bs xs ys) = interleave bs' (calls xs) (calls ys)"
proof (induction bs xs ys rule: interleave.induct)
  case (1 bs ys)
  show ?case by (simp add: calls_simps)
next
  case (2 bs v va)
  have "calls ([]::event list) = []" by (simp add: calls_def)
  then show ?case by (simp add: interleave_Nil2)
next
  case (3 v va vb vc)
  have "calls (interleave [] (v # va) (vb # vc)) = calls ((v # va) @ (vb # vc))"
    by simp
  also have "\<dots> = calls (v # va) @ calls (vb # vc)"
    by (rule calls_append)
  also have "\<dots> = interleave [] (calls (v # va)) (calls (vb # vc))"
    by (simp only: interleave_no_schedule)
  finally show ?case by blast
next
  case (4 bs x xs v va)
  then obtain bs' where IH:
    "calls (interleave bs xs (v # va)) = interleave bs' (calls xs) (calls (v # va))"
    by blast
  show ?case
  proof (cases "is_log x")
    case True
    then show ?thesis using IH by (auto simp add: calls_simps)
  next
    case False
    have "calls (interleave (True # bs) (x # xs) (v # va)) =
        interleave (True # bs') (calls (x # xs)) (calls (v # va))"
      using False IH by (cases "calls (v # va)") (simp_all add: calls_simps interleave_Nil2)
    then show ?thesis by blast
  qed
next
  case (5 bs v va y ys)
  then obtain bs' where IH:
    "calls (interleave bs (v # va) ys) = interleave bs' (calls (v # va)) (calls ys)"
    by blast
  show ?case
  proof (cases "is_log y")
    case True
    then show ?thesis using IH by (auto simp add: calls_simps)
  next
    case False
    have "calls (interleave (False # bs) (v # va) (y # ys)) =
        interleave (False # bs') (calls (v # va)) (calls (y # ys))"
      using False IH by (cases "calls (v # va)") (simp_all add: calls_simps interleave_Nil2)
    then show ?thesis by blast
  qed
qed

lemma interleave_singletons: "interleave bs [a] [b] = [a, b] \<or> interleave bs [a] [b] = [b, a]"
proof (cases bs)
  case Nil
  then show ?thesis by simp
next
  case (Cons h t)
  then show ?thesis by (cases h) simp_all
qed

lemma copy_goroutine_moves: "list_all copy_move (copy_goroutine fmt dst src oc)"
  by (cases oc) (simp_all add: copy_goroutine_def)

lemma calls_copy_goroutine:
  "calls (copy_goroutine fmt dst src oc) =
     (case oc of CopyBlocks \<Rightarrow> [] | CopyReturns err \<Rightarrow> [CopyDone dst src])"
  by (cases oc) (simp_all add: copy_goroutine_def calls_append calls_simps)

lemma copy_moves_quiet:
  assumes "list_all copy_move zs"
  shows "deadline_calls zs = []"
    and "deadline_in_force cn zs = None"
    and "filter is_conn_close zs = []"
    and "connect_calls zs = 0"
  using assms
  by (induction zs; simp add: connect_calls_def; case_tac a; simp)+

lemma copy_moves_interleaved:
  "list_all copy_move
     (interleave bs (copy_goroutine fmt1 d1 s1 oc1) (copy_goroutine fmt2 d2 s2 oc2))"
  by (simp add: list_all_interleave copy_goroutine_moves)

lemma trace_copyStage:
  "trace (snd (copyStage env l r c)) = trace c @
     [ConnSetDeadline l (now env + sint (ioTimeout c)) (set_deadline_res env)] @
     (if set_deadline_res env \<noteq> None then [Log ''SetDeadline failed: %v''] else []) @
     [GoCopy l r, GoCopy r l, WaitCopies] @
     interleave (copy_schedule env)
       (copy_goroutine ''io.Copy (1 / local -> remote) failed: %v'' l r (copy_to_local env c))
       (copy_goroutine ''io.Copy (2 / remote -> local) failed: %v'' r l (copy_to_remote env c)) @
     (if copy_to_local env c = CopyBlocks \<or> copy_to_remote env c = CopyBlocks then []
      else [ConnClose l] @
           (if lconn_close_res env \<noteq> None \<and> lconn_close_res env \<noteq> Some EOF
            then [Log ''lConn.Close failed: %v''] else []) @
           [ConnClose r] @
           (if rconn_close_res env \<noteq> None \<and> rconn_close_res env \<noteq> Some EOF
            then [Log ''rConn.Close failed: %v''] else []))"
  by (simp add: copyStage_def Let_def emit_fields log_fields maybe_log_fields wgDone_fields)

lemma copyStage_result:
  "fst (copyStage env l r c) =
     (if copy_to_local env c = CopyBlocks \<or> copy_to_remote env c = CopyBlocks then Blocked
      else if wg c = 0 then Panicked else Returned ())"
  by (simp add: copyStage_def Let_def emit_fields log_fields maybe_log_fields wgDone_fields)

lemma forwardProxy_stage:
  "sshDial (fp_dial env) c = (Returned (Inr rConn), c1) \<Longrightarrow>
   forwardProxy env lConn c = copyStage (fp_copy env) lConn rConn c1"
  by (simp add: forwardProxy_def)

lemma reverseProxy_stage:
  "netDial (rp_dial env) c = (Inr lConn, c1) \<Longrightarrow>
   reverseProxy env rConn c = copyStage (rp_copy env) lConn rConn c1"
  by (simp add: reverseProxy_def)


lemma forwardProxy_panics:
  "fst (sshDial (fp_dial env) c) = Panicked \<Longrightarrow> fst (forwardProxy env lConn c) = Panicked"
  by (cases "sshDial (fp_dial env) c") (simp add: forwardProxy_def)

lemma calls_copies_finished:
  "calls (interleave bs (copy_goroutine fmt1 l r (CopyReturns x))
            (copy_goroutine fmt2 r l (CopyReturns y))) = [CopyDone l r, CopyDone r l] \<or>
   calls (interleave bs (copy_goroutine fmt1 l r (CopyReturns x))
            (copy_goroutine fmt2 r l (CopyReturns y))) = [CopyDone r l, CopyDone l r]"
proof -
  obtain bs' where
    "calls (interleave bs (copy_goroutine fmt1 l r (CopyReturns x))
            (copy_goroutine fmt2 r l (CopyReturns y))) =
     interleave bs' [CopyDone l r] [CopyDone r l]"
    using calls_interleave [of bs "copy_goroutine fmt1 l r (CopyReturns x)"
        "copy_goroutine fmt2 r l (CopyReturns y)"]
    by (auto simp add: calls_copy_goroutine)
  with interleave_singletons [of bs' "CopyDone l r" "CopyDone r l"] show ?thesis
    by simp
qed

lemma calls_copyStage_finished:
  assumes "copy_to_local env c = CopyReturns x" "copy_to_remote env c = CopyReturns y"
  shows "\<exists>mid. calls (trace (snd (copyStage env l r c))) = calls (trace c) @
           [ConnSetDeadline l (now env + sint (ioTimeout c)) (set_deadline_res env),
            GoCopy l r, GoCopy r l, WaitCopies] @ mid @ [ConnClose l, ConnClose r] \<and>
           (mid = [CopyDone l r, CopyDone r l] \<or> mid = [CopyDone r l, CopyDone l r])"
  using assms
    calls_copies_finished [of "copy_schedule env" "''io.Copy (1 / local -> remote) failed: %v''"
      l r x "''io.Copy (2 / remote -> local) failed: %v''" y]
  by (auto simp add: trace_copyStage calls_append calls_simps)

lemma calls_copyStage_start:
  "\<exists>rest. calls (trace (snd (copyStage env l r c))) = calls (trace c) @
           [ConnSetDeadline l (now env + sint (ioTimeout c)) (set_deadline_res env),
            GoCopy l r, GoCopy r l, WaitCopies] @ rest \<and> deadline_calls rest = []"
proof -
  let ?mid = "interleave (copy_schedule env)
       (copy_goroutine ''io.Copy (1 / local -> remote) failed: %v'' l r (copy_to_local env c))
       (copy_goroutine ''io.Copy (2 / remote -> local) failed: %v'' r l (copy_to_remote env c))"
  let ?rest = "calls ?mid @
     (if copy_to_local env c = CopyBlocks \<or> copy_to_remote env c = CopyBlocks then []
      else [ConnClose l, ConnClose r])"
  have m: "deadline_calls ?mid = []"
    by (rule copy_moves_quiet) (rule copy_moves_interleaved)
  have "deadline_calls (calls ?mid) = []"
    using m by (simp add: deadline_calls_calls)
  then have "deadline_calls ?rest = []"
    by (simp add: deadline_calls_append)
  moreover have "calls (trace (snd (copyStage env l r c))) = calls (trace c) @
           [ConnSetDeadline l (now env + sint (ioTimeout c)) (set_deadline_res env),
            GoCopy l r, GoCopy r l, WaitCopies] @ ?rest"
    by (simp add: trace_copyStage calls_append calls_simps)
  ultimately show ?thesis by blast
qed

lemma is_conn_close_maybe_log: "filter is_conn_close (if b then [Log m] else []) = []"
  by simp

lemma copyStage_blocked_no_close:
  assumes "copy_to_local env c = CopyBlocks \<or> copy_to_remote env c = CopyBlocks"
  shows "filter is_conn_close (trace (snd (copyStage env l r c))) = filter is_conn_close (trace c)"
  using assms copy_moves_quiet(3) [OF copy_moves_interleaved]
  by (simp add: trace_copyStage is_conn_close_maybe_log)

lemma deadline_calls_copyStage:
  "deadline_calls (trace (snd (copyStage env l r c))) =
     deadline_calls (trace c) @ [(l, now env + sint (ioTimeout c))]"
  using copy_moves_quiet(1) [OF copy_moves_interleaved]
  by (simp add: trace_copyStage deadline_calls_append deadline_calls_maybe_log)

lemma deadline_in_force_copyStage_local:
  "set_deadline_res env = None \<Longrightarrow>
   deadline_in_force l (trace (snd (copyStage env l r c))) = Some (now env + sint (ioTimeout c))"
  using copy_moves_quiet(2) [OF copy_moves_interleaved]
  by (simp add: trace_copyStage deadline_in_force_append deadline_in_force_maybe_log)

lemma deadline_in_force_copyStage_remote:
  "l \<noteq> r \<Longrightarrow>
   deadline_in_force r (trace (snd (copyStage env l r c))) = deadline_in_force r (trace c)"
  using copy_moves_quiet(2) [OF copy_moves_interleaved]
  by (simp add: trace_copyStage deadline_in_force_append deadline_in_force_maybe_log
      split: option.splits)

lemma deadline_calls_sshDial:
  "deadline_calls (trace (snd (sshDial env c))) = deadline_calls (trace c)"
proof -
  have "deadline_calls (calls (trace (snd (sshDial env c)))) = deadline_calls (calls (trace c))"
    by (cases "sshClient c"; cases "first_dial env";
        cases "handle_read_at_retry (handle_at_retry env) (reconnect env)";
        cases "retry_addr_err env")
      (simp_all add: calls_sshDial deadline_calls_append)
  then show ?thesis by (simp add: deadline_calls_calls)
qed

lemma deadline_calls_netDial:
  "deadline_calls (trace (snd (netDial r c))) = deadline_calls (trace c)"
  by (simp add: trace_netDial deadline_calls_append)
















lemma wgWait_alone:
  "wgWait [] c = (if wg c = 0 then (Returned (), c) else (Blocked, c))"
  by (simp add: wgWait_def)

lemma Close_alone_fields:
  "closed (snd (Close l r [] c))"
  "listener (snd (Close l r [] c)) = None"
  "sshClient (snd (Close l r [] c)) = None"
  "wg (snd (Close l r [] c)) = wg c"
  "fst (Close l r [] c) = (if wg c = 0 then Returned () else Blocked)"
  by (simp_all add: Close_def closeInternal_def wgWait_alone closeSSH_fields closeListener_fields
      log_fields Let_def)

lemma closeSSH_nil:
  "sshClient c = None \<Longrightarrow> closeSSH r c = c\<lparr>trace := trace c @ [Log ''Closed sshClient'']\<rparr>"
  by (simp add: closeSSH_def emit_def log_def)

lemma closeListener_nil:
  "listener c = None \<Longrightarrow> closeListener r c = c\<lparr>trace := trace c @ [Log ''Closed listener'']\<rparr>"
  by (simp add: closeListener_def emit_def log_def)

lemma Close_alone_again:
  assumes "closed c" "listener c = None" "sshClient c = None" "wg c = 0"
  shows "Close l r [] c =
    (Returned (),
     c\<lparr>trace := trace c @
        [Log ''Closed listener'', Log ''Closed sshClient'', Log ''Close successful'']\<rparr>)"
proof -
  have same: "c\<lparr>closed := True\<rparr> = c"
    using assms(1) by (cases c) simp
  show ?thesis
    using assms(2-4)
    by (simp add: Close_def closeInternal_def wgWait_alone same closeListener_nil closeSSH_nil
        emit_def log_def)
qed

text \<open>
  With no other goroutine (the wait group at zero, as before any start),
  \<open>Close\<close> returns with the flag set and both handles nil, and a second \<open>Close\<close>
  changes no field and calls nothing but the logger.
\<close>

lemma Close_alone:
  assumes "wg c = 0"
  shows "fst (Close l r [] c) = Returned ()"
    and "fst (Close l' r' [] (snd (Close l r [] c))) = Returned ()"
    and "(snd (Close l' r' [] (snd (Close l r [] c))))\<lparr>trace := []\<rparr> =
           (snd (Close l r [] c))\<lparr>trace := []\<rparr>"
proof -
  let ?c = "snd (Close l r [] c)"
  have b: "closed ?c" "listener ?c = None" "sshClient ?c = None" "wg ?c = 0"
    using assms by (simp_all add: Close_alone_fields)
  note again = Close_alone_again [OF b, of l' r']
  show "fst (Close l r [] c) = Returned ()"
    using assms by (simp add: Close_alone_fields)
  show "fst (Close l' r' [] ?c) = Returned ()"
    by (simp add: again)
  show "(snd (Close l' r' [] ?c))\<lparr>trace := []\<rparr> = ?c\<lparr>trace := []\<rparr>"
    by (simp add: again)
qed

lemma supervisor_first_step:
  "supervisor_step ori env (AtStart, c) =
     (AtListenLoop, snd (sshConnect (sup_connect env) (log ''Started Tunnel'' c)))"
  by (simp add: supervisor_step_def)

lemma supervisor_stops:
  "closed c \<Longrightarrow> 0 < wg c \<Longrightarrow>
   supervisor_step ori env (AtListenLoop, c) =
     (Stopped, (log ''Stopped Tunnel'' c)\<lparr>wg := wg c - 1\<rparr>)"
  by (simp add: supervisor_step_def wgDone_def log_fields)

lemma past_simps:
  "past None t = False"
  "past (Some d) t = (d < t)"
  by (simp_all add: past_def)

lemma io_Copy_reader_returns: "snd (io_Copy dst_dl (Some d) cs fin) \<noteq> CopyBlocks"
proof (induction cs)
  case Nil
  show ?case by (cases fin) simp_all
next
  case (Cons x cs)
  obtain t w where x: "x = (t, w)" by (cases x)
  show ?case using Cons.IH by (cases w) (simp_all add: x split_beta)
qed

lemma written_before_deadline:
  "dst_dl = Some d \<or> src_dl = Some d \<Longrightarrow>
   list_all (\<lambda>t. t \<le> d) (fst (io_Copy dst_dl src_dl cs fin))"
proof (induction cs)
  case Nil
  show ?case by (cases fin) simp_all
next
  case (Cons x cs)
  obtain t w where x: "x = (t, w)" by (cases x)
  show ?case
    using Cons.IH [OF Cons.prems] Cons.prems
    by (cases w) (auto simp add: x past_simps split_beta)
qed

lemma io_Copy_flowing:
  assumes "dst_dl = Some d \<or> src_dl = Some d"
    and "list_all (\<lambda>x. snd x = None) cs"
    and "list_ex (\<lambda>x. d < fst x) cs"
  shows "snd (io_Copy dst_dl src_dl cs fin) = CopyReturns (Some ErrDeadlineExceeded)"
  using assms(2,3)
proof (induction cs)
  case Nil
  then show ?case by simp
next
  case (Cons x cs)
  obtain t w where x: "x = (t, w)" by (cases x)
  have w: "w = None" using Cons.prems(1) by (simp add: x)
  show ?case
  proof (cases "past src_dl t \<or> past dst_dl t")
    case True
    then show ?thesis by (simp add: x)
  next
    case False
    then have "\<not> d < t" using assms(1) by (auto simp add: past_simps)
    then have "list_ex (\<lambda>x. d < fst x) cs" using Cons.prems(2) by (simp add: x)
    moreover have "list_all (\<lambda>x. snd x = None) cs" using Cons.prems(1) by simp
    ultimately have "snd (io_Copy dst_dl src_dl cs fin) = CopyReturns (Some ErrDeadlineExceeded)"
      by (rule Cons.IH [rotated])
    then show ?thesis using False by (simp add: x w split_beta)
  qed
qed


section \<open>Lemmas: the mutex of \<open>sshConnect\<close>\<close>

lemma filter_update_length:
  "i < length xs \<Longrightarrow>
   length (filter P (xs[i := v])) + (if P (xs ! i) then 1 else 0) =
   length (filter P xs) + (if P v then 1 else 0)"
proof (induction xs arbitrary: i)
  case Nil
  then show ?case by simp
next
  case (Cons x xs)
  show ?case
  proof (cases i)
    case 0
    then show ?thesis by simp
  next
    case (Suc j)
    with Cons.prems have "j < length xs" by simp
    from Cons.IH [OF this] show ?thesis using Suc by simp
  qed
qed

lemma connect_move_inv:
  assumes "mutex_inv s"
  shows "mutex_inv (connect_move mv s)"
proof -
  obtain g r where mv: "mv = (g, r)" by (cases mv)
  show ?thesis
  proof (cases "length (pcs s) \<le> g")
    case True
    then show ?thesis using assms by (simp add: connect_move_def mv)
  next
    case False
    then have g: "g < length (pcs s)" by simp
    note upd = filter_update_length [OF g, of in_connect]
    show ?thesis
    proof (cases "pcs s ! g")
      case Outside
      then show ?thesis
        using assms upd [of AtLock] g
        by (simp add: connect_move_def mv mutex_inv_def connects_in_flight_def)
    next
      case AtLock
      then show ?thesis
        using assms upd [of AtCloseSSH] g
        by (simp add: connect_move_def mv mutex_inv_def connects_in_flight_def)
    next
      case AtCloseSSH
      then show ?thesis
        using assms upd [of AtSshDial] g
        by (simp add: connect_move_def mv mutex_inv_def connects_in_flight_def)
    next
      case AtSshDial
      then show ?thesis
        using assms upd [of AtUnlock] g
        by (cases r) (simp_all add: connect_move_def mv mutex_inv_def connects_in_flight_def)
    next
      case AtUnlock
      then show ?thesis
        using assms upd [of Outside] g
        by (simp add: connect_move_def mv mutex_inv_def connects_in_flight_def split: if_splits)
    qed
  qed
qed

lemma connect_schedule_inv:
  "mutex_inv s \<Longrightarrow> mutex_inv (connect_schedule mvs s)"
  by (induction mvs arbitrary: s) (simp_all add: connect_move_inv)

lemma connect_init_inv: "mutex_inv (connect_init n cl)"
  by (simp add: mutex_inv_def connect_init_def connects_in_flight_def)

lemma dials_le_connects: "dials_in_flight s \<le> connects_in_flight s"
proof -
  have "filter (\<lambda>pc. pc = AtSshDial) (pcs s) = filter (\<lambda>pc. pc = AtSshDial) (filter in_connect (pcs s))"
    by (simp add: conj_commute) (rule filter_cong; auto)
  then show ?thesis
    unfolding dials_in_flight_def connects_in_flight_def
    by (metis length_filter_le)
qed

text \<open>
  A goroutine that runs alone through the five places of \<open>sshConnect\<close> leaves
  the session handle as the function \<open>sshConnect\<close> of the sequential model
  does, and the mutex free.
\<close>

lemma lone_goroutine_agrees:
  "shared_client (connect_schedule [(0, r), (0, r), (0, r), (0, r), (0, r)]
      (connect_init (Suc 0) cl)) =
     sshClient (snd (sshConnect \<lparr> client_close_res = x, ssh_dial_res = r \<rparr> c)) \<and>
   pcs (connect_schedule [(0, r), (0, r), (0, r), (0, r), (0, r)]
      (connect_init (Suc 0) cl)) = [Outside] \<and>
   \<not> mx_locked (connect_schedule [(0, r), (0, r), (0, r), (0, r), (0, r)]
      (connect_init (Suc 0) cl))"
  by (cases r) (simp_all add: connect_init_def connect_move_def sshConnect_fields)


lemma calls_Close_alone:
  "calls (trace (snd (Close l r [] c))) = calls (trace c) @
     (case listener c of Some x \<Rightarrow> [ListenerClose x] | None \<Rightarrow> []) @
     (case sshClient c of Some cl \<Rightarrow> [ClientClose cl] | None \<Rightarrow> [])"
  by (cases "wg c = 0")
    (simp_all add: Close_def closeInternal_def wgWait_alone Let_def calls_closeSSH
      calls_closeListener closeListener_fields closeSSH_fields tr_simps)

section \<open>Properties of the tunnel\<close>

subsection \<open>C1: the retry after a failed reconnect\<close>

lemma sshDial_panics_iff:
  "fst (sshDial env c) = Panicked \<longleftrightarrow>
     sshClient c \<noteq> None \<and> isl (first_dial env) \<and>
     handle_read_at_retry (handle_at_retry env) (reconnect env) = None \<and>
     retry_addr_err env = None"
  by (cases "sshClient c"; cases "first_dial env";
      cases "handle_read_at_retry (handle_at_retry env) (reconnect env)";
      cases "retry_addr_err env")
    (simp_all add: sshDial_result)

text \<open>
  C1 says that no execution of a proxy task panics, and that the second
  \<open>Dial\<close> of \<open>sshDial\<close> never dereferences a nil session handle. The code does
  otherwise: with a session established, a first dial that fails and an SSH
  server that refuses the reconnect, \<open>sshConnect\<close> leaves the handle nil and
  the second \<open>c.sshClient.Dial\<close>, on the address \<open>localhost:8080\<close>, which
  parses, dereferences it, so \<open>sshDial\<close> panics and the forward proxy task
  with it.
\<close>

theorem sshDial_nil_dereference:
  "sshClient established_tunnel = Some 1 \<and>
   fst (sshDial stale_then_refused established_tunnel) = Panicked \<and>
   sshClient (snd (sshDial stale_then_refused established_tunnel)) = None \<and>
   calls (trace (snd (sshDial stale_then_refused established_tunnel))) =
     [ClientDial 1 ''tcp'' ''localhost:8080'', MxLock, ClientClose 1,
      SshConnectCall ''example.org:22'', MxUnlock, NilDereference] \<and>
   fst (forwardProxy \<lparr> fp_dial = stale_then_refused, fp_abort_close_res = None,
                       fp_copy = both_copies_fail \<rparr> 7 established_tunnel) = Panicked"
proof -
  have p: "fst (sshDial stale_then_refused established_tunnel) = Panicked"
    by (simp add: sshDial_result handle_read_at_retry_def established_tunnel_def
        stale_then_refused_def refused_def)
  have q: "fst (forwardProxy \<lparr> fp_dial = stale_then_refused, fp_abort_close_res = None,
                       fp_copy = both_copies_fail \<rparr> 7 established_tunnel) = Panicked"
    by (rule forwardProxy_panics) (simp add: p)
  show ?thesis
    by (simp add: p q)
      (simp add: sshDial_client calls_sshDial handle_read_at_retry_def established_tunnel_def
        example_tunnel_def NewSSHTunnel_def stale_then_refused_def refused_def calls_simps)
qed

subsection \<open>C2: one reconnect and one retry of the session dial\<close>




subsection \<open>C3: the deadline of a proxied pair\<close>

text \<open>
  C3 as stated says that the deadline is set on both sides of a proxied pair,
  so that an idle pair has both sides closed a bounded time after the
  deadline. In this forward proxy task the session dial returns the remote
  connection 9 for the accepted local connection 7: the only deadline call is
  the one on connection 7. The read of the remote side, which has no deadline,
  never returns on this idle pair; the task stays in \<open>wg.Wait()\<close> and closes
  neither side.
\<close>

theorem deadline_both_sides_counterexample:
  "fst (sshDial (fp_dial idle_task) established_tunnel) = Returned (Inr 9) \<and>
   deadline_calls (trace (snd (forwardProxy idle_task 7 established_tunnel))) =
     [(7, 30000001000)] \<and>
   deadline_in_force 9 (trace (snd (forwardProxy idle_task 7 established_tunnel))) = None \<and>
   fst (forwardProxy idle_task 7 established_tunnel) = Blocked \<and>
   filter is_conn_close (trace (snd (forwardProxy idle_task 7 established_tunnel))) = []"
proof -
  let ?cf = "snd (sshDial (fp_dial idle_task) established_tunnel)"
  have r: "fst (sshDial (fp_dial idle_task) established_tunnel) = Returned (Inr 9)"
    by (simp add: sshDial_result idle_task_def dial_succeeds_def established_tunnel_def)
  then have d: "sshDial (fp_dial idle_task) established_tunnel = (Returned (Inr 9), ?cf)"
    by (simp add: prod_eq_iff)
  have cf: "trace ?cf =
      [Log ''ssh.Dial to %s/%s...'', ClientDial 1 ''tcp'' ''localhost:8080'',
       Log ''ssh.Dial successful'']"
    "ioTimeout ?cf = 30 * Second"
    by (simp_all add: sshDial_def Let_def tr_simps idle_task_def dial_succeeds_def
        established_tunnel_def example_tunnel_def NewSSHTunnel_def)
  have b: "copy_to_local (fp_copy idle_task) ?cf = CopyBlocks \<or>
      copy_to_remote (fp_copy idle_task) ?cf = CopyBlocks"
    by (simp add: copy_to_local_def idle_task_def idle_pair_def)
  have n: "now (fp_copy idle_task) = 1000"
    by (simp add: idle_task_def idle_pair_def)
  show ?thesis
    using b
    by (simp add: r forwardProxy_stage [OF d] deadline_calls_copyStage
        deadline_in_force_copyStage_remote copyStage_blocked_no_close copyStage_result cf n
        Second_def)
qed

text \<open>
  C3, amended. For every proxied connection pair, in both orientations, the
  absolute deadline now + I/O timeout is set on the local side only, before
  either copy direction is started; the remote side gets no deadline. When a
  copy direction never returns, the task waits and closes neither side.
\<close>

theorem deadline_on_local_side_only:
  "(sshDial (fp_dial fenv) c = (Returned (Inr rConn), cf) \<longrightarrow>
      forwardProxy fenv lConn c = copyStage (fp_copy fenv) lConn rConn cf) \<and>
   (netDial (rp_dial renv) c' = (Inr lConn', cr) \<longrightarrow>
      reverseProxy renv rConn' c' = copyStage (rp_copy renv) lConn' rConn' cr) \<and>
   map fst (deadline_calls (trace (snd (copyStage env l r s)))) =
     map fst (deadline_calls (trace s)) @ [l] \<and>
   (\<exists>rest. calls (trace (snd (copyStage env l r s))) = calls (trace s) @
      [ConnSetDeadline l (now env + sint (ioTimeout s)) (set_deadline_res env),
       GoCopy l r, GoCopy r l, WaitCopies] @ rest) \<and>
   (l \<noteq> r \<longrightarrow>
      deadline_in_force r (trace (snd (copyStage env l r s))) = deadline_in_force r (trace s)) \<and>
   (copy_to_local env s = CopyBlocks \<or> copy_to_remote env s = CopyBlocks \<longrightarrow>
      fst (copyStage env l r s) = Blocked \<and>
      filter is_conn_close (trace (snd (copyStage env l r s))) = filter is_conn_close (trace s))"
proof -
  have "\<exists>rest. calls (trace (snd (copyStage env l r s))) = calls (trace s) @
      [ConnSetDeadline l (now env + sint (ioTimeout s)) (set_deadline_res env),
       GoCopy l r, GoCopy r l, WaitCopies] @ rest"
    using calls_copyStage_start [of env l r s] by blast
  then show ?thesis
    by (simp add: forwardProxy_stage reverseProxy_stage deadline_calls_copyStage
        deadline_in_force_copyStage_remote copyStage_blocked_no_close copyStage_result)
qed

theorem deadline_on_local_side_only_witness:
  "sshDial (fp_dial idle_task) established_tunnel =
     (Returned (Inr 9), snd (sshDial (fp_dial idle_task) established_tunnel)) \<and>
   netDial (rp_dial reverse_task) established_tunnel =
     (Inr 7, snd (netDial (rp_dial reverse_task) established_tunnel)) \<and>
   (copy_to_local idle_pair established_tunnel = CopyBlocks \<or>
    copy_to_remote idle_pair established_tunnel = CopyBlocks) \<and>
   forwardProxy idle_task 7 established_tunnel =
     copyStage idle_pair 7 9 (snd (sshDial (fp_dial idle_task) established_tunnel)) \<and>
   reverseProxy reverse_task 9 established_tunnel =
     copyStage both_copies_fail 7 9 (snd (netDial (rp_dial reverse_task) established_tunnel)) \<and>
   map fst (deadline_calls (trace (snd (copyStage idle_pair 7 9 established_tunnel)))) = [7] \<and>
   deadline_in_force 9 (trace (snd (copyStage idle_pair 7 9 established_tunnel))) = None \<and>
   fst (copyStage idle_pair 7 9 established_tunnel) = Blocked \<and>
   filter is_conn_close (trace (snd (copyStage idle_pair 7 9 established_tunnel))) = []"
proof -
  have d: "sshDial (fp_dial idle_task) established_tunnel =
     (Returned (Inr 9), snd (sshDial (fp_dial idle_task) established_tunnel))"
    by (simp add: prod_eq_iff sshDial_result idle_task_def dial_succeeds_def
        established_tunnel_def)
  have n: "netDial (rp_dial reverse_task) established_tunnel =
     (Inr 7, snd (netDial (rp_dial reverse_task) established_tunnel))"
    by (simp add: prod_eq_iff netDial_fields reverse_task_def)
  have b: "copy_to_local idle_pair established_tunnel = CopyBlocks \<or>
    copy_to_remote idle_pair established_tunnel = CopyBlocks"
    by (simp add: copy_to_local_def idle_pair_def)
  have t: "trace established_tunnel = []"
    by (simp add: established_tunnel_def example_tunnel_def NewSSHTunnel_def)
  note w = deadline_on_local_side_only
    [where fenv = idle_task and c = established_tunnel and rConn = 9 and lConn = 7
      and cf = "snd (sshDial (fp_dial idle_task) established_tunnel)"
      and renv = reverse_task and c' = established_tunnel and lConn' = 7 and rConn' = 9
      and cr = "snd (netDial (rp_dial reverse_task) established_tunnel)"
      and env = idle_pair and l = 7 and r = 9 and s = established_tunnel]
  from w d n b show ?thesis
    by (simp add: t idle_task_def reverse_task_def)
qed

subsection \<open>C4: what follows a failed connect\<close>











subsection \<open>C5: starting twice\<close>




subsection \<open>C6: closing right after the start\<close>

text \<open>
  C6 says that \<open>Close\<close> is safe under every call pattern: that after it has
  returned the closed flag is set and both handles are nil, and that a
  repeated \<open>Close\<close> leaves the state unchanged. The code does otherwise when
  \<open>Close\<close> follows \<open>ForwardTunnel\<close> at once. \<open>Close\<close> sets the flag, tears down
  both handles and waits in \<open>wg.Wait()\<close>; the supervisory goroutine then makes
  its first \<open>sshConnect\<close>, which is not behind the test of the closed flag, and
  the server accepts; the goroutine finds the flag set and stops, and \<open>Close\<close>
  returns with the session handle set. A second \<open>Close\<close> changes the state: it
  closes that client. (With no goroutine running, before any start or after a
  \<open>Close\<close> that left both handles nil, \<open>Close\<close> returns at once and a repeat
  changes no field: lemma \<open>Close_alone\<close>.)
\<close>

theorem Close_after_start_leaves_session:
  "fst close_after_start = Returned () \<and>
   closed (snd close_after_start) \<and>
   listener (snd close_after_start) = None \<and>
   wg (snd close_after_start) = 0 \<and>
   sshClient (snd close_after_start) = Some 2 \<and>
   calls (trace (snd close_after_start)) =
     [GoSupervisor Forward, MxLock, SshConnectCall ''example.org:22'', MxUnlock] \<and>
   sshClient (snd (Close None None [] (snd close_after_start))) = None \<and>
   calls (trace (snd (Close None None [] (snd close_after_start)))) =
     [GoSupervisor Forward, MxLock, SshConnectCall ''example.org:22'', MxUnlock, ClientClose 2]"
proof -
  define c2 where "c2 = closeInternal None None ((ForwardTunnel example_tunnel)\<lparr>closed := True\<rparr>)"
  define c3 where "c3 = snd (sshConnect accepted (log ''Started Tunnel'' c2))"
  have f2: "closed c2" "wg c2 = 1" "sshClient c2 = None" "listener c2 = None"
    "host c2 = ''example.org:22''" "calls (trace c2) = [GoSupervisor Forward]"
    by (simp_all add: c2_def closeInternal_def closeSSH_fields closeListener_fields
        calls_closeSSH calls_closeListener ForwardTunnel_def Let_def tr_simps
        example_tunnel_def NewSSHTunnel_def)
  have f3: "closed c3" "wg c3 = 1" "sshClient c3 = Some 2" "listener c3 = None"
    "calls (trace c3) =
       [GoSupervisor Forward, MxLock, SshConnectCall ''example.org:22'', MxUnlock]"
    by (simp_all add: c3_def sshConnect_fields calls_sshConnect log_fields f2 accepted_def
        calls_append calls_simps)
  have sa: "sup_connect server_accepts = accepted"
    by (simp add: server_accepts_def)
  have first: "supervisor_step Forward server_accepts (AtStart, c2) = (AtListenLoop, c3)"
    by (simp add: supervisor_first_step sa c3_def)
  have second: "supervisor_step Forward server_accepts (AtListenLoop, c3) =
      (Stopped, (log ''Stopped Tunnel'' c3)\<lparr>wg := wg c3 - 1\<rparr>)"
    by (rule supervisor_stops) (simp_all add: f3)
  have wait: "wgWait [SupervisorSteps Forward AtStart [server_accepts, server_accepts]] c2 =
      (Returned (), (log ''Stopped Tunnel'' c3)\<lparr>wg := 0\<rparr>)"
    by (simp add: wgWait_def first second f3)
  have cl: "close_after_start =
      (Returned (), log ''Close successful'' ((log ''Stopped Tunnel'' c3)\<lparr>wg := 0\<rparr>))"
    unfolding close_after_start_def Close_def Let_def c2_def [symmetric]
    by (simp add: wait)
  have g: "closed (snd close_after_start)" "listener (snd close_after_start) = None"
    "wg (snd close_after_start) = 0" "sshClient (snd close_after_start) = Some 2"
    "calls (trace (snd close_after_start)) =
       [GoSupervisor Forward, MxLock, SshConnectCall ''example.org:22'', MxUnlock]"
    by (simp_all add: cl log_fields f3 calls_append calls_simps)
  have h: "sshClient (snd (Close None None [] (snd close_after_start))) = None"
    by (simp add: Close_alone_fields)
  have i: "calls (trace (snd (Close None None [] (snd close_after_start)))) =
     [GoSupervisor Forward, MxLock, SshConnectCall ''example.org:22'', MxUnlock, ClientClose 2]"
    by (simp add: calls_Close_alone g)
  show ?thesis
    using g h i by (simp add: cl)
qed

subsection \<open>C7: one connect at a time\<close>

text \<open>
  C7. Whatever the number of goroutines that call \<open>sshConnect\<close>, whatever the
  results of their \<open>ssh.Dial\<close> calls and however the scheduler interleaves
  their moves, at most one goroutine is between the lock and the unlock of
  \<open>sshConnect\<close> at any moment, and so at most one \<open>ssh.Dial\<close> (one reconnect) is
  in flight.
\<close>

theorem one_connect_at_a_time:
  "connects_in_flight (connect_schedule mvs (connect_init n cl)) \<le> 1 \<and>
   dials_in_flight (connect_schedule mvs (connect_init n cl)) \<le> 1"
proof -
  have "mutex_inv (connect_schedule mvs (connect_init n cl))"
    by (rule connect_schedule_inv [OF connect_init_inv])
  then have a: "connects_in_flight (connect_schedule mvs (connect_init n cl)) \<le> 1"
    by (simp add: mutex_inv_def split: if_splits)
  with dials_le_connects [of "connect_schedule mvs (connect_init n cl)"] show ?thesis
    by simp
qed

theorem one_connect_at_a_time_witness:
  "pcs (connect_schedule
          [(0, Inl EOF), (Suc 0, Inl EOF), (0, Inl EOF), (Suc 0, Inl EOF), (0, Inl EOF),
           (Suc 0, Inl EOF)]
          (connect_init (Suc (Suc 0)) None)) = [AtSshDial, AtLock] \<and>
   connects_in_flight (connect_schedule
          [(0, Inl EOF), (Suc 0, Inl EOF), (0, Inl EOF), (Suc 0, Inl EOF), (0, Inl EOF),
           (Suc 0, Inl EOF)]
          (connect_init (Suc (Suc 0)) None)) \<le> 1"
  using one_connect_at_a_time
    [of "[(0, Inl EOF), (Suc 0, Inl EOF), (0, Inl EOF), (Suc 0, Inl EOF), (0, Inl EOF),
          (Suc 0, Inl EOF)]" "Suc (Suc 0)" None]
  by (simp add: connect_init_def connect_move_def)

subsection \<open>C8: the two copy directions, the join and the two closes\<close>

text \<open>
  C8 as stated says that every proxy task that reaches the copying stage
  closes each side exactly once and leaves no side unclosed. This forward
  proxy task reaches the copying stage with the local connection 7 and the
  remote connection 9, on a pair where nothing ever arrives. The direction
  that reads the local side ends at the deadline; the read of the remote side
  never returns; the task stays in \<open>wg.Wait()\<close> and closes neither side.
\<close>

theorem idle_task_closes_nothing_counterexample:
  "fst (sshDial (fp_dial idle_task) established_tunnel) = Returned (Inr 9) \<and>
   fst (forwardProxy idle_task 7 established_tunnel) = Blocked \<and>
   calls (trace (snd (forwardProxy idle_task 7 established_tunnel))) =
     [ClientDial 1 ''tcp'' ''localhost:8080'', ConnSetDeadline 7 30000001000 None,
      GoCopy 7 9, GoCopy 9 7, WaitCopies, CopyDone 9 7]"
proof -
  let ?cf = "snd (sshDial (fp_dial idle_task) established_tunnel)"
  have t: "sshClient established_tunnel = Some 1" "calls (trace established_tunnel) = []"
    "sshNetwork established_tunnel = ''tcp''" "sshAddress established_tunnel = ''localhost:8080''"
    "sint (ioTimeout established_tunnel) = 30000000000"
    by (simp_all add: established_tunnel_def example_tunnel_def NewSSHTunnel_def calls_def
        Second_def)
  have r: "fst (sshDial (fp_dial idle_task) established_tunnel) = Returned (Inr 9)"
    by (simp add: sshDial_result idle_task_def dial_succeeds_def t)
  then have d: "sshDial (fp_dial idle_task) established_tunnel = (Returned (Inr 9), ?cf)"
    by (simp add: prod_eq_iff)
  have cf: "calls (trace ?cf) = [ClientDial 1 ''tcp'' ''localhost:8080'']"
    "ioTimeout ?cf = ioTimeout established_tunnel"
    by (simp_all add: calls_sshDial sshDial_fields idle_task_def dial_succeeds_def t)
  have o: "copy_to_local idle_pair ?cf = CopyBlocks"
    "copy_to_remote idle_pair ?cf = CopyReturns (Some ErrDeadlineExceeded)"
    by (simp_all add: copy_to_local_def copy_to_remote_def local_deadline_def idle_pair_def)
  have e: "fp_copy idle_task = idle_pair" "now idle_pair = 1000"
    "set_deadline_res idle_pair = None" "copy_schedule idle_pair = []"
    by (simp_all add: idle_task_def idle_pair_def)
  show ?thesis
    by (simp add: r forwardProxy_stage [OF d] e copyStage_result trace_copyStage o cf t
        copy_goroutine_def calls_append calls_simps)
qed

text \<open>
  C8, amended. Every proxy task that reaches the copying stage, in either
  orientation, starts both copy directions before it waits for them, and
  closes the sides only after both directions have returned. When both have
  returned, in whichever order and whatever they returned (also when both
  failed), it closes the local side once and the remote side once. When a
  direction never returns, the task waits and closes neither side.
\<close>

theorem copies_joined_then_each_side_closed_once:
  "(sshDial (fp_dial fenv) c = (Returned (Inr rConn), cf) \<longrightarrow>
      forwardProxy fenv lConn c = copyStage (fp_copy fenv) lConn rConn cf) \<and>
   (netDial (rp_dial renv) c' = (Inr lConn', cr) \<longrightarrow>
      reverseProxy renv rConn' c' = copyStage (rp_copy renv) lConn' rConn' cr) \<and>
   (\<exists>rest. calls (trace (snd (copyStage env l r s))) = calls (trace s) @
      [ConnSetDeadline l (now env + sint (ioTimeout s)) (set_deadline_res env),
       GoCopy l r, GoCopy r l, WaitCopies] @ rest) \<and>
   (copy_to_local env s = CopyReturns x \<and> copy_to_remote env s = CopyReturns y \<longrightarrow>
      (\<exists>mid. calls (trace (snd (copyStage env l r s))) = calls (trace s) @
         [ConnSetDeadline l (now env + sint (ioTimeout s)) (set_deadline_res env),
          GoCopy l r, GoCopy r l, WaitCopies] @ mid @ [ConnClose l, ConnClose r] \<and>
         (mid = [CopyDone l r, CopyDone r l] \<or> mid = [CopyDone r l, CopyDone l r])) \<and>
      (0 < wg s \<longrightarrow> fst (copyStage env l r s) = Returned ())) \<and>
   (copy_to_local env s = CopyBlocks \<or> copy_to_remote env s = CopyBlocks \<longrightarrow>
      fst (copyStage env l r s) = Blocked \<and>
      filter is_conn_close (trace (snd (copyStage env l r s))) = filter is_conn_close (trace s))"
proof -
  have a: "\<exists>rest. calls (trace (snd (copyStage env l r s))) = calls (trace s) @
      [ConnSetDeadline l (now env + sint (ioTimeout s)) (set_deadline_res env),
       GoCopy l r, GoCopy r l, WaitCopies] @ rest"
    using calls_copyStage_start [of env l r s] by blast
  have b: "(\<exists>mid. calls (trace (snd (copyStage env l r s))) = calls (trace s) @
         [ConnSetDeadline l (now env + sint (ioTimeout s)) (set_deadline_res env),
          GoCopy l r, GoCopy r l, WaitCopies] @ mid @ [ConnClose l, ConnClose r] \<and>
         (mid = [CopyDone l r, CopyDone r l] \<or> mid = [CopyDone r l, CopyDone l r])) \<and>
      (0 < wg s \<longrightarrow> fst (copyStage env l r s) = Returned ())"
    if "copy_to_local env s = CopyReturns x" "copy_to_remote env s = CopyReturns y"
    using calls_copyStage_finished [OF that, of l r] that by (simp add: copyStage_result)
  have c: "fst (copyStage env l r s) = Blocked \<and>
      filter is_conn_close (trace (snd (copyStage env l r s))) = filter is_conn_close (trace s)"
    if "copy_to_local env s = CopyBlocks \<or> copy_to_remote env s = CopyBlocks"
    using copyStage_blocked_no_close [OF that, of l r] that by (simp add: copyStage_result)
  from a b c show ?thesis
    by (simp add: forwardProxy_stage reverseProxy_stage)
qed

theorem copies_joined_then_each_side_closed_once_witness:
  "sshDial (fp_dial failing_copies_task) established_tunnel =
     (Returned (Inr 9), snd (sshDial (fp_dial failing_copies_task) established_tunnel)) \<and>
   netDial (rp_dial reverse_task) established_tunnel =
     (Inr 7, snd (netDial (rp_dial reverse_task) established_tunnel)) \<and>
   copy_to_local both_copies_fail established_tunnel = CopyReturns (Some (ErrOther 4)) \<and>
   copy_to_remote both_copies_fail established_tunnel = CopyReturns (Some (ErrOther 5)) \<and>
   0 < wg established_tunnel \<and>
   (copy_to_local idle_pair established_tunnel = CopyBlocks \<or>
    copy_to_remote idle_pair established_tunnel = CopyBlocks) \<and>
   forwardProxy failing_copies_task 7 established_tunnel =
     copyStage both_copies_fail 7 9 (snd (sshDial (fp_dial failing_copies_task) established_tunnel)) \<and>
   reverseProxy reverse_task 9 established_tunnel =
     copyStage both_copies_fail 7 9 (snd (netDial (rp_dial reverse_task) established_tunnel)) \<and>
   calls (trace (snd (copyStage both_copies_fail 7 9 established_tunnel))) =
     [ConnSetDeadline 7 30000001000 None, GoCopy 7 9, GoCopy 9 7, WaitCopies,
      CopyDone 9 7, CopyDone 7 9, ConnClose 7, ConnClose 9] \<and>
   fst (copyStage both_copies_fail 7 9 established_tunnel) = Returned () \<and>
   fst (copyStage idle_pair 7 9 established_tunnel) = Blocked \<and>
   filter is_conn_close (trace (snd (copyStage idle_pair 7 9 established_tunnel))) = []"
proof -
  have t: "trace established_tunnel = []" "wg established_tunnel = 2"
    "sint (ioTimeout established_tunnel) = 30000000000"
    "sshClient established_tunnel = Some 1"
    by (simp_all add: established_tunnel_def example_tunnel_def NewSSHTunnel_def Second_def)
  have d: "sshDial (fp_dial failing_copies_task) established_tunnel =
     (Returned (Inr 9), snd (sshDial (fp_dial failing_copies_task) established_tunnel))"
    by (simp add: prod_eq_iff sshDial_result failing_copies_task_def dial_succeeds_def t)
  have n: "netDial (rp_dial reverse_task) established_tunnel =
     (Inr 7, snd (netDial (rp_dial reverse_task) established_tunnel))"
    by (simp add: prod_eq_iff netDial_fields reverse_task_def)
  have o: "copy_to_local both_copies_fail established_tunnel = CopyReturns (Some (ErrOther 4))"
    "copy_to_remote both_copies_fail established_tunnel = CopyReturns (Some (ErrOther 5))"
    by (simp_all add: copy_to_local_def copy_to_remote_def local_deadline_def
        both_copies_fail_def past_def t)
  have e: "now both_copies_fail = 1000" "set_deadline_res both_copies_fail = None"
    "copy_schedule both_copies_fail = [False, False]"
    "lconn_close_res both_copies_fail = None" "rconn_close_res both_copies_fail = None"
    by (simp_all add: both_copies_fail_def)
  have b: "copy_to_local idle_pair established_tunnel = CopyBlocks \<or>
    copy_to_remote idle_pair established_tunnel = CopyBlocks"
    by (simp add: copy_to_local_def idle_pair_def)
  have k: "calls (trace (snd (copyStage both_copies_fail 7 9 established_tunnel))) =
     [ConnSetDeadline 7 30000001000 None, GoCopy 7 9, GoCopy 9 7, WaitCopies,
      CopyDone 9 7, CopyDone 7 9, ConnClose 7, ConnClose 9]"
    by (simp add: trace_copyStage o e t copy_goroutine_def calls_append calls_simps)
  note w1 = copies_joined_then_each_side_closed_once
    [where fenv = failing_copies_task and c = established_tunnel and rConn = 9 and lConn = 7
      and cf = "snd (sshDial (fp_dial failing_copies_task) established_tunnel)"
      and renv = reverse_task and c' = established_tunnel and lConn' = 7 and rConn' = 9
      and cr = "snd (netDial (rp_dial reverse_task) established_tunnel)"
      and env = both_copies_fail and l = 7 and r = 9 and s = established_tunnel
      and x = "Some (ErrOther 4)" and y = "Some (ErrOther 5)"]
  note w2 = copies_joined_then_each_side_closed_once
    [where env = idle_pair and l = 7 and r = 9 and s = established_tunnel]
  have p: "forwardProxy failing_copies_task 7 established_tunnel =
     copyStage both_copies_fail 7 9 (snd (sshDial (fp_dial failing_copies_task) established_tunnel))"
    "reverseProxy reverse_task 9 established_tunnel =
     copyStage both_copies_fail 7 9 (snd (netDial (rp_dial reverse_task) established_tunnel))"
    using w1 d n by (simp_all add: failing_copies_task_def reverse_task_def)
  have q: "fst (copyStage both_copies_fail 7 9 established_tunnel) = Returned ()"
    using w1 o t by simp
  have u: "fst (copyStage idle_pair 7 9 established_tunnel) = Blocked"
    "filter is_conn_close (trace (snd (copyStage idle_pair 7 9 established_tunnel))) = []"
    using w2 b t by simp_all
  from d n o b p k q u t show ?thesis by simp
qed

subsection \<open>C9: what \<open>NewSSHTunnel\<close> builds\<close>

lemma apply_setters_keep:
  "netNetwork (apply_setters xs c) = netNetwork c \<and>
   netAddress (apply_setters xs c) = netAddress c \<and>
   sshNetwork (apply_setters xs c) = sshNetwork c \<and>
   sshAddress (apply_setters xs c) = sshAddress c \<and>
   ioTimeout (apply_setters xs c) = ioTimeout c"
proof (induction xs arbitrary: c)
  case Nil
  show ?case by simp
next
  case (Cons x xs)
  show ?case
    by (cases x) (simp_all add: Cons.IH SetAttemptSleepTime_def SetLogger_def SetNoLogger_def)
qed

text \<open>
  C9. For every configuration, host and pair of ports, \<open>NewSSHTunnel\<close> builds a
  tunnel whose plain-socket address is \<open>localhost:\<close> followed by the local port
  and whose session-side address is \<open>localhost:\<close> followed by the remote port,
  both on the network \<open>tcp\<close>, not closed, with a backoff of 3 seconds and an
  I/O timeout of 30 seconds. No setter changes the two addresses or the
  networks, and \<open>main\<close> passes its flags \<open>sshhost\<close> and \<open>sshport\<close> into the
  address of the SSH server only: the host of the remote target cannot be
  configured, only its port.
\<close>

theorem NewSSHTunnel_localhost_defaults:
  "netNetwork (NewSSHTunnel cfg h localPort remotePort) = ''tcp'' \<and>
   netAddress (NewSSHTunnel cfg h localPort remotePort) = ''localhost:'' @ localPort \<and>
   sshNetwork (NewSSHTunnel cfg h localPort remotePort) = ''tcp'' \<and>
   sshAddress (NewSSHTunnel cfg h localPort remotePort) = ''localhost:'' @ remotePort \<and>
   closed (NewSSHTunnel cfg h localPort remotePort) = False \<and>
   sshClient (NewSSHTunnel cfg h localPort remotePort) = None \<and>
   listener (NewSSHTunnel cfg h localPort remotePort) = None \<and>
   sint (attemptSleepTime (NewSSHTunnel cfg h localPort remotePort)) = 3 * 1000000000 \<and>
   sint (ioTimeout (NewSSHTunnel cfg h localPort remotePort)) = 30 * 1000000000 \<and>
   netNetwork (apply_setters xs (NewSSHTunnel cfg h localPort remotePort)) = ''tcp'' \<and>
   netAddress (apply_setters xs (NewSSHTunnel cfg h localPort remotePort)) =
     ''localhost:'' @ localPort \<and>
   sshNetwork (apply_setters xs (NewSSHTunnel cfg h localPort remotePort)) = ''tcp'' \<and>
   sshAddress (apply_setters xs (NewSSHTunnel cfg h localPort remotePort)) =
     ''localhost:'' @ remotePort \<and>
   host (main_tunnel cfg sshhost sshport localPort remotePort) = sshhost @ '':'' @ sshport \<and>
   netAddress (main_tunnel cfg sshhost sshport localPort remotePort) =
     ''localhost:'' @ localPort \<and>
   sshAddress (main_tunnel cfg sshhost sshport localPort remotePort) =
     ''localhost:'' @ remotePort"
  by (simp add: apply_setters_keep) (simp add: main_tunnel_def NewSSHTunnel_def Second_def)

theorem NewSSHTunnel_localhost_defaults_witness:
  "netAddress (NewSSHTunnel 0 ''207.180.199.119:22'' ''8080'' ''8080'') = ''localhost:8080'' \<and>
   sshAddress (apply_setters [CallSetAttemptSleepTime Second, CallSetNoLogger]
     (NewSSHTunnel 0 ''207.180.199.119:22'' ''8080'' ''8080'')) = ''localhost:8080''"
  using NewSSHTunnel_localhost_defaults
    [where cfg = 0 and h = "''207.180.199.119:22''" and localPort = "''8080''"
      and remotePort = "''8080''" and xs = "[CallSetAttemptSleepTime Second, CallSetNoLogger]"]
  by simp

subsection \<open>C10: one absolute deadline, never refreshed\<close>

text \<open>
  C10. A proxy task sets a deadline exactly once: on the local side, as the
  first call of the copying stage, before either copy direction is started,
  to that instant plus the I/O timeout. Neither the dial before the stage nor
  anything after that call sets another one, whatever arrives on the two
  sides. So, when that \<open>SetDeadline\<close> returned nil: the direction that reads
  the local side always returns; neither direction reads or writes a chunk of
  the local side later than start + I/O timeout; and on a pair where bytes
  flow without any other failure and still arrive after that instant, the
  direction ends with a deadline error.
\<close>

theorem deadline_set_once_never_refreshed:
  "(sshDial (fp_dial fenv) c = (Returned (Inr rConn), cf) \<longrightarrow>
      forwardProxy fenv lConn c = copyStage (fp_copy fenv) lConn rConn cf \<and>
      deadline_calls (trace cf) = deadline_calls (trace c)) \<and>
   (netDial (rp_dial renv) c' = (Inr lConn', cr) \<longrightarrow>
      reverseProxy renv rConn' c' = copyStage (rp_copy renv) lConn' rConn' cr \<and>
      deadline_calls (trace cr) = deadline_calls (trace c')) \<and>
   deadline_calls (trace (snd (copyStage env l r s))) =
     deadline_calls (trace s) @ [(l, now env + sint (ioTimeout s))] \<and>
   (\<exists>rest. calls (trace (snd (copyStage env l r s))) = calls (trace s) @
      [ConnSetDeadline l (now env + sint (ioTimeout s)) (set_deadline_res env),
       GoCopy l r, GoCopy r l, WaitCopies] @ rest \<and> deadline_calls rest = []) \<and>
   (set_deadline_res env = None \<longrightarrow>
      deadline_in_force l (trace (snd (copyStage env l r s))) =
        Some (now env + sint (ioTimeout s)) \<and>
      local_deadline env s = Some (now env + sint (ioTimeout s)) \<and>
      copy_to_remote env s \<noteq> CopyBlocks \<and>
      list_all (\<lambda>t. t \<le> now env + sint (ioTimeout s)) (written_to_local env s) \<and>
      list_all (\<lambda>t. t \<le> now env + sint (ioTimeout s)) (written_to_remote env s) \<and>
      (list_all (\<lambda>x. snd x = None) (chunks (from_local env)) \<and>
       list_ex (\<lambda>x. now env + sint (ioTimeout s) < fst x) (chunks (from_local env)) \<longrightarrow>
         copy_to_remote env s = CopyReturns (Some ErrDeadlineExceeded)) \<and>
      (list_all (\<lambda>x. snd x = None) (chunks (from_remote env)) \<and>
       list_ex (\<lambda>x. now env + sint (ioTimeout s) < fst x) (chunks (from_remote env)) \<longrightarrow>
         copy_to_local env s = CopyReturns (Some ErrDeadlineExceeded)))"
proof -
  let ?d = "now env + sint (ioTimeout s)"
  have f: "deadline_calls (trace cf) = deadline_calls (trace c)"
    if "sshDial (fp_dial fenv) c = (Returned (Inr rConn), cf)"
    using deadline_calls_sshDial [of "fp_dial fenv" c] that by simp
  have g: "deadline_calls (trace cr) = deadline_calls (trace c')"
    if "netDial (rp_dial renv) c' = (Inr lConn', cr)"
    using deadline_calls_netDial [of "rp_dial renv" c'] that by simp
  have ld: "local_deadline env s = Some ?d" if "set_deadline_res env = None"
    using that by (simp add: local_deadline_def)
  have h1: "copy_to_remote env s \<noteq> CopyBlocks" if "set_deadline_res env = None"
    by (simp add: copy_to_remote_def ld [OF that] io_Copy_reader_returns)
  have h2: "list_all (\<lambda>t. t \<le> ?d) (written_to_local env s)" if "set_deadline_res env = None"
    unfolding written_to_local_def
    by (rule written_before_deadline) (simp add: ld [OF that])
  have h3: "list_all (\<lambda>t. t \<le> ?d) (written_to_remote env s)" if "set_deadline_res env = None"
    unfolding written_to_remote_def
    by (rule written_before_deadline) (simp add: ld [OF that])
  have h4: "copy_to_remote env s = CopyReturns (Some ErrDeadlineExceeded)"
    if "set_deadline_res env = None"
      "list_all (\<lambda>x. snd x = None) (chunks (from_local env))"
      "list_ex (\<lambda>x. ?d < fst x) (chunks (from_local env))"
    unfolding copy_to_remote_def
    by (rule io_Copy_flowing [where d = ?d]) (simp_all add: ld [OF that(1)] that)
  have h5: "copy_to_local env s = CopyReturns (Some ErrDeadlineExceeded)"
    if "set_deadline_res env = None"
      "list_all (\<lambda>x. snd x = None) (chunks (from_remote env))"
      "list_ex (\<lambda>x. ?d < fst x) (chunks (from_remote env))"
    unfolding copy_to_local_def
    by (rule io_Copy_flowing [where d = ?d]) (simp_all add: ld [OF that(1)] that)
  from calls_copyStage_start [of env l r s] h1 h2 h3 h4 h5 show ?thesis
    by (simp add: f g ld forwardProxy_stage reverseProxy_stage deadline_calls_copyStage
        deadline_in_force_copyStage_local)
qed

theorem deadline_set_once_never_refreshed_witness:
  "sshDial (fp_dial flowing_task) established_tunnel =
     (Returned (Inr 9), snd (sshDial (fp_dial flowing_task) established_tunnel)) \<and>
   netDial (rp_dial reverse_task) established_tunnel =
     (Inr 7, snd (netDial (rp_dial reverse_task) established_tunnel)) \<and>
   set_deadline_res flowing_pair = None \<and>
   list_all (\<lambda>x. snd x = None) (chunks (from_local flowing_pair)) \<and>
   list_ex (\<lambda>x. 30000001000 < fst x) (chunks (from_local flowing_pair)) \<and>
   list_all (\<lambda>x. snd x = None) (chunks (from_remote flowing_pair)) \<and>
   list_ex (\<lambda>x. 30000001000 < fst x) (chunks (from_remote flowing_pair)) \<and>
   deadline_calls (trace (snd (forwardProxy flowing_task 7 established_tunnel))) =
     [(7, 30000001000)] \<and>
   deadline_calls (trace (snd (reverseProxy reverse_task 9 established_tunnel))) =
     [(7, 30000001000)] \<and>
   copy_to_remote flowing_pair established_tunnel = CopyReturns (Some ErrDeadlineExceeded) \<and>
   copy_to_local flowing_pair established_tunnel = CopyReturns (Some ErrDeadlineExceeded) \<and>
   written_to_remote flowing_pair established_tunnel =
     [5000000000, 15000000000, 25000000000] \<and>
   written_to_local flowing_pair established_tunnel =
     [10000000000, 20000000000, 30000000000]"
proof -
  let ?cf = "snd (sshDial (fp_dial flowing_task) established_tunnel)"
  let ?cr = "snd (netDial (rp_dial reverse_task) established_tunnel)"
  have t: "deadline_calls (trace established_tunnel) = []"
    "sint (ioTimeout established_tunnel) = 30000000000"
    "sshClient established_tunnel = Some 1"
    by (simp_all add: established_tunnel_def example_tunnel_def NewSSHTunnel_def Second_def)
  have d: "sshDial (fp_dial flowing_task) established_tunnel = (Returned (Inr 9), ?cf)"
    by (simp add: prod_eq_iff sshDial_result flowing_task_def dial_succeeds_def t)
  have n: "netDial (rp_dial reverse_task) established_tunnel = (Inr 7, ?cr)"
    by (simp add: prod_eq_iff netDial_fields reverse_task_def)
  have e: "now flowing_pair = 1000" "set_deadline_res flowing_pair = None"
    "now both_copies_fail = 1000"
    "fp_copy flowing_task = flowing_pair" "rp_copy reverse_task = both_copies_fail"
    by (simp_all add: flowing_pair_def both_copies_fail_def flowing_task_def reverse_task_def)
  have fl: "list_all (\<lambda>x. snd x = None) (chunks (from_local flowing_pair))"
    "list_ex (\<lambda>x. 30000001000 < fst x) (chunks (from_local flowing_pair))"
    "list_all (\<lambda>x. snd x = None) (chunks (from_remote flowing_pair))"
    "list_ex (\<lambda>x. 30000001000 < fst x) (chunks (from_remote flowing_pair))"
    by (simp_all add: flowing_pair_def)
  have i: "ioTimeout ?cf = ioTimeout established_tunnel"
    "ioTimeout ?cr = ioTimeout established_tunnel"
    by (simp_all add: sshDial_fields netDial_fields)
  note w1 = deadline_set_once_never_refreshed
    [where fenv = flowing_task and c = established_tunnel and rConn = 9 and lConn = 7
      and cf = ?cf and renv = reverse_task and c' = established_tunnel and lConn' = 7
      and rConn' = 9 and cr = ?cr
      and env = flowing_pair and l = 7 and r = 9 and s = established_tunnel]
  note w2 = deadline_set_once_never_refreshed
    [where env = flowing_pair and l = 7 and r = 9 and s = ?cf]
  note w3 = deadline_set_once_never_refreshed
    [where env = both_copies_fail and l = 7 and r = 9 and s = ?cr]
  have p: "forwardProxy flowing_task 7 established_tunnel = copyStage flowing_pair 7 9 ?cf"
    "deadline_calls (trace ?cf) = []"
    "reverseProxy reverse_task 9 established_tunnel = copyStage both_copies_fail 7 9 ?cr"
    "deadline_calls (trace ?cr) = []"
    using w1 d n by (simp_all add: e t)
  have q: "deadline_calls (trace (snd (copyStage flowing_pair 7 9 ?cf))) = [(7, 30000001000)]"
    using w2 by (simp add: p e i t)
  have q': "deadline_calls (trace (snd (copyStage both_copies_fail 7 9 ?cr))) = [(7, 30000001000)]"
    using w3 by (simp add: p e i t)
  have o: "copy_to_remote flowing_pair established_tunnel = CopyReturns (Some ErrDeadlineExceeded)"
    "copy_to_local flowing_pair established_tunnel = CopyReturns (Some ErrDeadlineExceeded)"
    using w1 fl by (simp_all add: e t)
  have v: "written_to_remote flowing_pair established_tunnel =
     [5000000000, 15000000000, 25000000000]"
    "written_to_local flowing_pair established_tunnel =
     [10000000000, 20000000000, 30000000000]"
    by (simp_all add: written_to_remote_def written_to_local_def local_deadline_def
        flowing_pair_def past_def t)
  from d n e fl p q q' o v show ?thesis by simp
qed

end
